theory Spec2Isabelle
  imports Complex_Main "HOL-Library.Sublist" "HOL-Library.Log_Nat"
begin

section \<open>Values of the host language\<close>

text \<open>
  The program is JavaScript. A finite number is the rational it denotes, beside the three
  non-finite values. Arithmetic rounds its result to binary64 (\<open>round64\<close> below); a numeric
  literal is read exactly, and the sign of zero is not modelled. Strings are ASCII
  character lists: white space and case mapping beyond ASCII are not modelled.
\<close>

datatype jsnum = NaN | Fin rat | PInf | NInf

text \<open>Primitive values, as the document store and the spreadsheet reader deliver them.\<close>

datatype prim = JUndefined | JNull | JBool bool | JNum jsnum | JStr string

text \<open>
  A spreadsheet cell is a primitive or a native \<open>Date\<close> object (the workbook is read with
  \<open>cellDates: true\<close>); the time value of a \<open>Date\<close> is \<open>None\<close> when the date is invalid.
\<close>

datatype jsval = Prim prim | DateObj "int option"

datatype error = TypeError

subsection \<open>Strings\<close>

definition isWhiteSpace :: "char \<Rightarrow> bool" where
  "isWhiteSpace c \<longleftrightarrow> c \<in> set [CHR 0x09, CHR 0x0A, CHR 0x0B, CHR 0x0C, CHR 0x0D, CHR 0x20]"

definition trimStart :: "string \<Rightarrow> string" where
  "trimStart s = dropWhile isWhiteSpace s"

definition trim :: "string \<Rightarrow> string" where
  "trim s = rev (dropWhile isWhiteSpace (rev (dropWhile isWhiteSpace s)))"

definition lowerChar :: "char \<Rightarrow> char" where
  "lowerChar c = (case map_of (zip ''ABCDEFGHIJKLMNOPQRSTUVWXYZ'' ''abcdefghijklmnopqrstuvwxyz'') c of
       Some d \<Rightarrow> d | None \<Rightarrow> c)"

definition upperChar :: "char \<Rightarrow> char" where
  "upperChar c = (case map_of (zip ''abcdefghijklmnopqrstuvwxyz'' ''ABCDEFGHIJKLMNOPQRSTUVWXYZ'') c of
       Some d \<Rightarrow> d | None \<Rightarrow> c)"

definition toLowerCase :: "string \<Rightarrow> string" where
  "toLowerCase s = map lowerChar s"

definition toUpperCase :: "string \<Rightarrow> string" where
  "toUpperCase s = map upperChar s"

subsection \<open>Numeric literals: \<open>parseFloat\<close>, \<open>parseInt\<close>, \<open>Number\<close> of a string\<close>

definition isDigit :: "char \<Rightarrow> bool" where
  "isDigit c \<longleftrightarrow> c \<in> set ''0123456789''"

definition digitVal :: "char \<Rightarrow> nat" where
  "digitVal c = of_char c - 48"

definition digitsValue :: "string \<Rightarrow> nat" where
  "digitsValue ds = foldl (\<lambda>a c. 10 * a + digitVal c) 0 ds"

definition scale10 :: "nat \<Rightarrow> int \<Rightarrow> rat" where
  "scale10 m e = (if 0 \<le> e then of_nat m * 10 ^ nat e else of_nat m / 10 ^ nat (- e))"

definition negate :: "jsnum \<Rightarrow> jsnum" where
  "negate x = (case x of NaN \<Rightarrow> NaN | Fin q \<Rightarrow> Fin (- q) | PInf \<Rightarrow> NInf | NInf \<Rightarrow> PInf)"

text \<open>An optional \<open>ExponentPart\<close> at the head of a string: its value and what follows it.\<close>

definition exponentPart :: "string \<Rightarrow> int \<times> string" where
  "exponentPart r =
     (if r \<noteq> [] \<and> (hd r = CHR ''e'' \<or> hd r = CHR ''E'') then
        (let r1 = tl r;
             minus = (r1 \<noteq> [] \<and> hd r1 = CHR ''-'');
             r2 = (if r1 \<noteq> [] \<and> (hd r1 = CHR ''-'' \<or> hd r1 = CHR ''+'') then tl r1 else r1);
             es = takeWhile isDigit r2
         in if es = [] then (0, r)
            else (if minus then - int (digitsValue es) else int (digitsValue es),
                  dropWhile isDigit r2))
      else (0, r))"

text \<open>
  The longest prefix that is a \<open>StrUnsignedDecimalLiteral\<close>: its value (\<open>NaN\<close> when there
  is none) and the rest of the string.
\<close>

definition unsignedDecimal :: "string \<Rightarrow> jsnum \<times> string" where
  "unsignedDecimal r =
     (if take 8 r = ''Infinity'' then (PInf, drop 8 r)
      else
        (let ds1 = takeWhile isDigit r;
             r1 = dropWhile isDigit r;
             dot = (r1 \<noteq> [] \<and> hd r1 = CHR ''.'');
             ds2 = (if dot then takeWhile isDigit (tl r1) else []);
             r2 = (if dot then dropWhile isDigit (tl r1) else r1)
         in if ds1 = [] \<and> ds2 = [] then (NaN, r)
            else (Fin (scale10 (digitsValue (ds1 @ ds2))
                         (fst (exponentPart r2) - int (length ds2))),
                  snd (exponentPart r2))))"

definition signedDecimal :: "string \<Rightarrow> jsnum \<times> string" where
  "signedDecimal t =
     (if t \<noteq> [] \<and> hd t = CHR ''-'' then
        (negate (fst (unsignedDecimal (tl t))), snd (unsignedDecimal (tl t)))
      else if t \<noteq> [] \<and> hd t = CHR ''+'' then unsignedDecimal (tl t)
      else unsignedDecimal t)"

definition parseFloat :: "string \<Rightarrow> jsnum" where
  "parseFloat s = fst (signedDecimal (trimStart s))"

definition isHexDigit :: "char \<Rightarrow> bool" where
  "isHexDigit c \<longleftrightarrow> c \<in> set ''0123456789abcdefABCDEF''"

definition hexVal :: "char \<Rightarrow> nat" where
  "hexVal c = (let n = (of_char c :: nat) in
     if 97 \<le> n then n - 87 else if 65 \<le> n then n - 55 else n - 48)"

definition radixValue :: "nat \<Rightarrow> string \<Rightarrow> nat" where
  "radixValue b ds = foldl (\<lambda>a c. b * a + hexVal c) 0 ds"

definition hasHexPrefix :: "string \<Rightarrow> bool" where
  "hasHexPrefix t \<longleftrightarrow> take 2 t = ''0x'' \<or> take 2 t = ''0X''"


text \<open>\<open>Number\<close> applied to a string: the whole trimmed string has to be a numeric literal.\<close>

definition radixLiteral :: "nat \<Rightarrow> (char \<Rightarrow> bool) \<Rightarrow> string \<Rightarrow> jsnum" where
  "radixLiteral b ok ds = (if ds \<noteq> [] \<and> list_all ok ds then Fin (of_nat (radixValue b ds)) else NaN)"

definition stringToNumber :: "string \<Rightarrow> jsnum" where
  "stringToNumber s =
     (let t = trim s in
      if t = [] then Fin 0
      else if hasHexPrefix t then radixLiteral 16 isHexDigit (drop 2 t)
      else if take 2 t = ''0o'' \<or> take 2 t = ''0O'' then
        radixLiteral 8 (\<lambda>c. c \<in> set ''01234567'') (drop 2 t)
      else if take 2 t = ''0b'' \<or> take 2 t = ''0B'' then
        radixLiteral 2 (\<lambda>c. c \<in> set ''01'') (drop 2 t)
      else if snd (signedDecimal t) = [] then fst (signedDecimal t) else NaN)"

subsection \<open>Coercions of primitives\<close>

definition gt0 :: "jsnum \<Rightarrow> bool" where
  "gt0 x = (case x of NaN \<Rightarrow> False | Fin q \<Rightarrow> 0 < q | PInf \<Rightarrow> True | NInf \<Rightarrow> False)"

definition truthyNum :: "jsnum \<Rightarrow> bool" where
  "truthyNum x \<longleftrightarrow> x \<noteq> NaN \<and> x \<noteq> Fin 0"

definition truthyPrim :: "prim \<Rightarrow> bool" where
  "truthyPrim v = (case v of JUndefined \<Rightarrow> False | JNull \<Rightarrow> False | JBool b \<Rightarrow> b
     | JNum x \<Rightarrow> truthyNum x | JStr s \<Rightarrow> s \<noteq> [])"

definition primToNumber :: "prim \<Rightarrow> jsnum" where
  "primToNumber v = (case v of JUndefined \<Rightarrow> NaN | JNull \<Rightarrow> Fin 0
     | JBool b \<Rightarrow> (if b then Fin 1 else Fin 0) | JNum x \<Rightarrow> x | JStr s \<Rightarrow> stringToNumber s)"

definition truthy :: "jsval \<Rightarrow> bool" where
  "truthy v = (case v of Prim p \<Rightarrow> truthyPrim p | DateObj t \<Rightarrow> True)"

definition toNumber :: "jsval \<Rightarrow> jsnum" where
  "toNumber v = (case v of Prim p \<Rightarrow> primToNumber p
     | DateObj t \<Rightarrow> (case t of None \<Rightarrow> NaN | Some ms \<Rightarrow> Fin (of_int ms)))"

section \<open>Field coercion\<close>

definition stripCurrency :: "string \<Rightarrow> string" where
  "stripCurrency s = filter (\<lambda>c. c \<noteq> CHR ''$'' \<and> c \<noteq> CHR '','') s"

text \<open>
  \<open>parsePrice\<close> (the same three lines in both scripts):
  \<^verbatim>\<open>if (typeof val === 'number') return val;\<close>
  \<^verbatim>\<open>if (typeof val === 'string') return parseFloat(val.replace(/[$,]/g, ''));\<close>
  \<^verbatim>\<open>return 0;\<close>
\<close>

definition parsePrice :: "jsval \<Rightarrow> jsnum" where
  "parsePrice val = (case val of
       Prim (JNum x) \<Rightarrow> x
     | Prim (JStr s) \<Rightarrow> parseFloat (stripCurrency s)
     | _ \<Rightarrow> Fin 0)"

text \<open>The call site \<^verbatim>\<open>Number(parsePrice(v) || 0)\<close>.\<close>

definition orZero :: "jsnum \<Rightarrow> jsnum" where
  "orZero x = (if truthyNum x then x else Fin 0)"

section \<open>What the host provides\<close>

text \<open>
  What depends on the engine and on the machine's time zone is taken as a parameter:
  \<open>Date.parse\<close> (\<open>None\<close> for an unreadable date), the calendar year of a time value in
  local time (\<open>getFullYear\<close>), the text of a number that is not an integer below
  \<open>2\<^sup>5\<^sup>3\<close>, and the text of a \<open>Date\<close> object.
\<close>

record host =
  dateParse :: "string \<Rightarrow> int option"
  localYear :: "int \<Rightarrow> int"
  numberText :: "rat \<Rightarrow> string"
  dateText :: "int option \<Rightarrow> string"

subsection \<open>Numbers as text\<close>

definition digitChar :: "nat \<Rightarrow> char" where
  "digitChar d = ''0123456789'' ! d"

fun natText :: "nat \<Rightarrow> string" where
  "natText n = (if n < 10 then [digitChar n] else natText (n div 10) @ [digitChar (n mod 10)])"

declare natText.simps [simp del]

definition intText :: "int \<Rightarrow> string" where
  "intText i = (if i < 0 then CHR ''-'' # natText (nat (- i)) else natText (nat i))"

definition isInteger :: "rat \<Rightarrow> bool" where
  "isInteger q \<longleftrightarrow> of_int \<lfloor>q\<rfloor> = q"

text \<open>
  \<open>Number::toString\<close> prints the shortest decimal that reads back as the same binary64
  value. For an integer of magnitude below \<open>2\<^sup>5\<^sup>3\<close> that is its decimal expansion; what is
  printed for any other finite number is the host's \<open>numberText\<close>.
\<close>

definition numberToString :: "host \<Rightarrow> jsnum \<Rightarrow> string" where
  "numberToString h x = (case x of
       NaN \<Rightarrow> ''NaN''
     | PInf \<Rightarrow> ''Infinity''
     | NInf \<Rightarrow> ''-Infinity''
     | Fin q \<Rightarrow> (if isInteger q \<and> \<bar>q\<bar> < 2 ^ 53 then intText \<lfloor>q\<rfloor> else numberText h q))"

definition primText :: "host \<Rightarrow> prim \<Rightarrow> string" where
  "primText h v = (case v of
       JUndefined \<Rightarrow> ''undefined''
     | JNull \<Rightarrow> ''null''
     | JBool b \<Rightarrow> (if b then ''true'' else ''false'')
     | JNum x \<Rightarrow> numberToString h x
     | JStr s \<Rightarrow> s)"

text \<open>\<open>String(v)\<close> and \<open>v\<close> inside a template literal.\<close>

definition toText :: "host \<Rightarrow> jsval \<Rightarrow> string" where
  "toText h v = (case v of Prim p \<Rightarrow> primText h p | DateObj t \<Rightarrow> dateText h t)"

subsection \<open>Rounding to binary64\<close>

text \<open>
  The result of an arithmetic operation is the binary64 value nearest to the exact result,
  the one with the even significand when two are equally near, and an infinity when that
  value would reach \<open>2\<^sup>1\<^sup>0\<^sup>2\<^sup>4\<close>. For a positive \<open>a\<close>, \<open>ilog2 a\<close> is its binary exponent
  (\<open>2 powi ilog2 a \<le> a < 2 powi (ilog2 a + 1)\<close>) and \<open>ulp a\<close> is the distance between
  neighbouring binary64 values at \<open>a\<close>: 52 binary places below the exponent, and constant
  in the subnormal range below \<open>2 powi - 1022\<close>, where the least positive value is
  \<open>minSubnormal\<close>. \<open>isDouble q\<close> says that \<open>q\<close> is a binary64 value.
\<close>

definition ilog2 :: "rat \<Rightarrow> int" where
  "ilog2 a = (if 1 \<le> a then bitlen \<lfloor>a\<rfloor> - 1 else - bitlen (\<lceil>1 / a\<rceil> - 1))"

definition roundHalfEven :: "rat \<Rightarrow> int" where
  "roundHalfEven x =
     (let f = \<lfloor>x\<rfloor>; r = x - of_int f in
      if r < 1 / 2 then f else if 1 / 2 < r then f + 1 else if even f then f else f + 1)"

definition ulp :: "rat \<Rightarrow> rat" where
  "ulp a = 2 powi (max (ilog2 a) (- 1022) - 52)"

definition round64 :: "rat \<Rightarrow> jsnum" where
  "round64 q =
     (if q = 0 then Fin 0
      else (let a = \<bar>q\<bar>; v = of_int (roundHalfEven (a / ulp a)) * ulp a in
            if 2 ^ 1024 \<le> v then (if 0 < q then PInf else NInf)
            else Fin (if 0 < q then v else - v)))"

definition isDouble :: "rat \<Rightarrow> bool" where
  "isDouble q \<longleftrightarrow> round64 q = Fin q"

definition minSubnormal :: rat where
  "minSubnormal = 2 powi (- 1074)"

text \<open>The greatest finite binary64 value, \<^verbatim>\<open>Number.MAX_VALUE\<close>.\<close>

definition maxDouble :: rat where
  "maxDouble = (2 ^ 53 - 1) * 2 ^ 971"

subsection \<open>Arithmetic on numbers\<close>

definition numSub :: "jsnum \<Rightarrow> jsnum \<Rightarrow> jsnum" where
  "numSub a b = (case (a, b) of
       (NaN, _) \<Rightarrow> NaN | (_, NaN) \<Rightarrow> NaN
     | (Fin x, Fin y) \<Rightarrow> round64 (x - y)
     | (Fin x, PInf) \<Rightarrow> NInf | (Fin x, NInf) \<Rightarrow> PInf
     | (PInf, PInf) \<Rightarrow> NaN | (PInf, _) \<Rightarrow> PInf
     | (NInf, NInf) \<Rightarrow> NaN | (NInf, _) \<Rightarrow> NInf)"

definition numAdd :: "jsnum \<Rightarrow> jsnum \<Rightarrow> jsnum" where
  "numAdd a b = numSub a (negate b)"


definition numOver :: "jsnum \<Rightarrow> rat \<Rightarrow> jsnum" where
  "numOver a c = (case a of Fin x \<Rightarrow> round64 (x / c) | _ \<Rightarrow> a)"


subsection \<open>Dates\<close>

text \<open>\<open>TimeClip\<close>: the time value of \<open>new Date(number)\<close>.\<close>

definition timeClip :: "jsnum \<Rightarrow> int option" where
  "timeClip x = (case x of
       Fin q \<Rightarrow> (if \<bar>q\<bar> \<le> 8640000000000000
                 then Some (if 0 \<le> q then \<lfloor>q\<rfloor> else - \<lfloor>- q\<rfloor>) else None)
     | _ \<Rightarrow> None)"

text \<open>\<open>new Date(v)\<close> for a primitive \<open>v\<close>: a string is parsed, anything else is a number.\<close>

definition newDate :: "host \<Rightarrow> prim \<Rightarrow> int option" where
  "newDate h v = (case v of JStr s \<Rightarrow> dateParse h s | _ \<Rightarrow> timeClip (primToNumber v))"

section \<open>The canonical record\<close>

text \<open>
  The object literal built by both scripts, field by field in the source's order. \<open>date\<close>
  is the time value of a valid \<open>Date\<close>; \<open>year\<close> is the result of \<open>getFullYear\<close>. The upload
  script adds \<open>uniqueKey\<close>.
\<close>

record listing =
  address :: prim
  date :: int
  price :: prim
  pricePerSqFt :: prim
  sqFt :: prim
  daysOnMarket :: prim
  city :: prim
  subdivision :: prim
  beds :: prim
  baths :: prim
  year :: int
  newConstruction :: prim
  insideCityLimits :: prim

record stored = listing +
  uniqueKey :: string

text \<open>\<open>a || b\<close> on primitives.\<close>

definition orElse :: "prim \<Rightarrow> prim \<Rightarrow> prim" where
  "orElse a b = (if truthyPrim a then a else b)"

section \<open>Dashboard: loading and normalising\<close>

text \<open>
  A document of the store: its \<open>date\<close> field is a timestamp wrapper (it has \<open>toDate\<close>) or a
  primitive, every other field is a primitive (\<open>JUndefined\<close> when absent).
\<close>

datatype datefield = Wrapped int | Plain prim

record doc =
  docDate :: datefield
  docFields :: "string \<Rightarrow> prim"

text \<open>
  \<open>fetchDataFromFirestore\<close>, the loop over the snapshot: a document whose date is invalid
  is left out, the others are passed on with \<open>date\<close> replaced by the \<open>Date\<close> object.
\<close>

definition toDateObj :: "host \<Rightarrow> datefield \<Rightarrow> int option" where
  "toDateObj h d = (case d of Wrapped t \<Rightarrow> Some t | Plain v \<Rightarrow> newDate h v)"

record row =
  rowDate :: int
  rowFields :: "string \<Rightarrow> prim"

definition fetchRows :: "host \<Rightarrow> doc list \<Rightarrow> row list" where
  "fetchRows h docs = List.map_filter
     (\<lambda>d. case toDateObj h (docDate d) of
            None \<Rightarrow> None
          | Some t \<Rightarrow> Some \<lparr>rowDate = t, rowFields = docFields d\<rparr>) docs"

text \<open>
  The price of a row in \<open>processData\<close>: a string is parsed, then \<open>undefined\<close>, \<open>null\<close> and
  \<open>NaN\<close> become \<open>0\<close>.
\<close>

definition dimPricePrim :: "prim \<Rightarrow> prim" where
  "dimPricePrim v =
     (let p = (case v of JStr s \<Rightarrow> JNum (parseFloat (stripCurrency s)) | _ \<Rightarrow> v)
      in if p = JUndefined \<or> p = JNull \<or> primToNumber p = NaN then JNum (Fin 0) else p)"

definition toListing :: "host \<Rightarrow> row \<Rightarrow> listing" where
  "toListing h r =
     \<lparr>address = orElse (rowFields r ''address'') (JStr ''''),
      date = rowDate r,
      price = dimPricePrim (rowFields r ''price''),
      pricePerSqFt = orElse (rowFields r ''pricePerSqFt'') (JNum (Fin 0)),
      sqFt = orElse (rowFields r ''sqFt'') (JNum (Fin 0)),
      daysOnMarket = orElse (rowFields r ''daysOnMarket'') (JNum (Fin 0)),
      city = orElse (rowFields r ''city'') (JStr ''Unknown''),
      subdivision = orElse (rowFields r ''subdivision'') (JStr ''''),
      beds = orElse (rowFields r ''beds'') (JNum (Fin 0)),
      baths = orElse (rowFields r ''baths'') (JNum (Fin 0)),
      year = localYear h (rowDate r),
      newConstruction = orElse (rowFields r ''newConstruction'') (JStr ''No''),
      insideCityLimits = orElse (rowFields r ''insideCityLimits'') (JStr ''Unknown'')\<rparr>"

text \<open>\<^verbatim>\<open>.filter(d => !isNaN(d.price) && d.price > 0 && d.date.getFullYear() > 2000)\<close>\<close>

definition retained :: "host \<Rightarrow> listing \<Rightarrow> bool" where
  "retained h d \<longleftrightarrow>
     primToNumber (price d) \<noteq> NaN \<and> gt0 (primToNumber (price d)) \<and> 2000 < localYear h (date d)"

definition normalize :: "host \<Rightarrow> row list \<Rightarrow> listing list" where
  "normalize h rows = filter (retained h) (map (toListing h) rows)"

subsection \<open>Duplicates\<close>

text \<open>
  \<^verbatim>\<open>`${d.date.getTime()}-${d.address.trim().toLowerCase()}-${d.price}`\<close>: calling \<open>trim\<close> on
  an address that is not a string throws.
\<close>

definition fingerprint :: "host \<Rightarrow> 'a listing_scheme \<Rightarrow> error + string" where
  "fingerprint h d = (case address d of
       JStr a \<Rightarrow> Inr (numberToString h (Fin (of_int (date d))) @ ''-''
                     @ toLowerCase (trim a) @ ''-'' @ primText h (price d))
     | _ \<Rightarrow> Inl TypeError)"

text \<open>The filter with the set \<open>seen\<close>: a record is kept when its key is new.\<close>

fun dedupFrom :: "host \<Rightarrow> string list \<Rightarrow> listing list \<Rightarrow> error + listing list" where
  "dedupFrom h seen [] = Inr []"
| "dedupFrom h seen (d # ds) =
     (case fingerprint h d of
        Inl e \<Rightarrow> Inl e
      | Inr k \<Rightarrow>
          if k \<in> set seen then dedupFrom h seen ds
          else (case dedupFrom h (k # seen) ds of
                  Inl e \<Rightarrow> Inl e
                | Inr kept \<Rightarrow> Inr (d # kept)))"

definition dedup :: "host \<Rightarrow> listing list \<Rightarrow> error + listing list" where
  "dedup h ds = dedupFrom h [] ds"

text \<open>
  The specification's wording of the same: the first record of each fingerprint is kept,
  every later record with that fingerprint is discarded.
\<close>

fun keepFirst :: "('a \<Rightarrow> 'k) \<Rightarrow> 'a list \<Rightarrow> 'a list" where
  "keepFirst key [] = []"
| "keepFirst key (x # xs) = x # keepFirst key (filter (\<lambda>y. key y \<noteq> key x) xs)"

section \<open>Dashboard: filters\<close>

record filterState =
  selectedYears :: "prim list"
  selectedCities :: "prim list"
  selectedNewConstruction :: "prim list"
  selectedCityLimits :: "prim list"

datatype stateKey = SelectedYears | SelectedCities | SelectedNewConstruction | SelectedCityLimits

definition getSelected :: "stateKey \<Rightarrow> filterState \<Rightarrow> prim list" where
  "getSelected k fs = (case k of
       SelectedYears \<Rightarrow> selectedYears fs
     | SelectedCities \<Rightarrow> selectedCities fs
     | SelectedNewConstruction \<Rightarrow> selectedNewConstruction fs
     | SelectedCityLimits \<Rightarrow> selectedCityLimits fs)"

definition setSelected :: "stateKey \<Rightarrow> prim list \<Rightarrow> filterState \<Rightarrow> filterState" where
  "setSelected k xs fs = (case k of
       SelectedYears \<Rightarrow> fs\<lparr>selectedYears := xs\<rparr>
     | SelectedCities \<Rightarrow> fs\<lparr>selectedCities := xs\<rparr>
     | SelectedNewConstruction \<Rightarrow> fs\<lparr>selectedNewConstruction := xs\<rparr>
     | SelectedCityLimits \<Rightarrow> fs\<lparr>selectedCityLimits := xs\<rparr>)"

text \<open>
  \<open>Array.prototype.includes\<close> compares with SameValueZero and \<open>!==\<close> with strict equality:
  on primitives both compare type and value, and differ on \<open>NaN\<close> only.
\<close>

definition arrayIncludes :: "prim list \<Rightarrow> prim \<Rightarrow> bool" where
  "arrayIncludes xs v \<longleftrightarrow> v \<in> set xs"

definition strictEquals :: "prim \<Rightarrow> prim \<Rightarrow> bool" where
  "strictEquals a b \<longleftrightarrow> a = b \<and> a \<noteq> JNum NaN"

text \<open>\<open>[...new Set(xs)]\<close>: the distinct values in the order of their first occurrence.\<close>

definition distinctValues :: "prim list \<Rightarrow> prim list" where
  "distinctValues xs = rev (remdups (rev xs))"

text \<open>The \<open>year\<close> of a record as the number it is.\<close>

definition yearValue :: "'a listing_scheme \<Rightarrow> prim" where
  "yearValue d = JNum (Fin (of_int (year d)))"

text \<open>The defaults set by \<open>processData\<close>: everything selected.\<close>

definition initFilters :: "listing list \<Rightarrow> filterState" where
  "initFilters rawData =
     \<lparr>selectedYears = distinctValues (map yearValue rawData),
      selectedCities = distinctValues (map city rawData),
      selectedNewConstruction = [JStr ''Yes'', JStr ''No''],
      selectedCityLimits = distinctValues (map insideCityLimits rawData)\<rparr>"

text \<open>A checkbox of a filter menu: its \<open>value\<close> attribute (always text) and its state.\<close>

record checkbox =
  cbValue :: string
  cbChecked :: bool

definition isFiniteNum :: "jsnum \<Rightarrow> bool" where
  "isFiniteNum x = (case x of Fin q \<Rightarrow> True | _ \<Rightarrow> False)"

text \<open>
  \<^verbatim>\<open>if (!isNaN(parseFloat(val)) && isFinite(val)) val = parseFloat(val);\<close>
\<close>

definition sniffed :: "string \<Rightarrow> prim" where
  "sniffed val = (if parseFloat val \<noteq> NaN \<and> isFiniteNum (stringToNumber val)
     then JNum (parseFloat val) else JStr val)"

definition handleFilterChange :: "checkbox \<Rightarrow> stateKey \<Rightarrow> filterState \<Rightarrow> filterState" where
  "handleFilterChange cb k fs =
     (let val = sniffed (cbValue cb); cur = getSelected k fs in
      if cbChecked cb then
        (if \<not> arrayIncludes cur val then setSelected k (cur @ [val]) fs else fs)
      else setSelected k (filter (\<lambda>item. \<not> strictEquals item val) cur) fs)"

definition clearFilter :: "stateKey \<Rightarrow> filterState \<Rightarrow> filterState" where
  "clearFilter k fs = setSelected k [] fs"

text \<open>\<open>updateDashboard\<close>: the records that the four selections let through.\<close>

definition matches :: "filterState \<Rightarrow> listing \<Rightarrow> bool" where
  "matches fs d \<longleftrightarrow>
     arrayIncludes (selectedYears fs) (yearValue d)
     \<and> arrayIncludes (selectedCities fs) (city d)
     \<and> arrayIncludes (selectedNewConstruction fs) (newConstruction d)
     \<and> arrayIncludes (selectedCityLimits fs) (insideCityLimits d)"

definition filteredData :: "filterState \<Rightarrow> listing list \<Rightarrow> listing list" where
  "filteredData fs rawData = filter (matches fs) rawData"

section \<open>Dashboard: aggregation\<close>

text \<open>
  \<open>Array.prototype.sort\<close> with a comparator is a stable sort; a comparator result of
  \<open>NaN\<close> counts as \<open>0\<close>. With a consistent comparator every stable sort returns the same
  array, here built by insertion.
\<close>

fun insertBy :: "('a \<Rightarrow> 'a \<Rightarrow> jsnum) \<Rightarrow> 'a \<Rightarrow> 'a list \<Rightarrow> 'a list" where
  "insertBy cmp x [] = [x]"
| "insertBy cmp x (y # ys) = (if gt0 (cmp x y) then y # insertBy cmp x ys else x # y # ys)"

definition jsSort :: "('a \<Rightarrow> 'a \<Rightarrow> jsnum) \<Rightarrow> 'a list \<Rightarrow> 'a list" where
  "jsSort cmp xs = foldr (insertBy cmp) xs []"

definition median :: "jsnum list \<Rightarrow> jsnum" where
  "median arr =
     (if arr = [] then Fin 0
      else (let sorted = jsSort (\<lambda>a b. numSub a b) arr; mid = length sorted div 2 in
            if length sorted mod 2 \<noteq> 0 then sorted ! mid
            else numOver (numAdd (sorted ! (mid - 1)) (sorted ! mid)) 2))"






section \<open>Upload\<close>

text \<open>A row of the sheet: a cell for every column name, \<open>undefined\<close> where there is none.\<close>

type_synonym sheetRow = "string \<Rightarrow> jsval"

definition parseDate :: "host \<Rightarrow> jsval \<Rightarrow> int option" where
  "parseDate h val = (case val of
       DateObj t \<Rightarrow> t
     | Prim (JStr s) \<Rightarrow> dateParse h s
     | Prim (JNum x) \<Rightarrow> timeClip x
     | _ \<Rightarrow> None)"

definition normalizeYesNo :: "host \<Rightarrow> jsval \<Rightarrow> string" where
  "normalizeYesNo h val =
     (if \<not> truthy val then ''No''
      else (let s = toUpperCase (trim (toText h val)) in
            if s = ''Y'' \<or> s = ''YES'' then ''Yes'' else ''No''))"

definition normalizeCityLimits :: "host \<Rightarrow> jsval \<Rightarrow> string" where
  "normalizeCityLimits h val =
     (if \<not> truthy val then ''Unknown''
      else (let s = toUpperCase (trim (toText h val)) in
            if s = ''Y'' \<or> s = ''YES'' then ''Yes''
            else if s = ''N'' \<or> s = ''NO'' then ''No''
            else ''Unknown''))"

text \<open>\<open>a || b\<close> on cells.\<close>

definition orElseCell :: "jsval \<Rightarrow> jsval \<Rightarrow> jsval" where
  "orElseCell a b = (if truthy a then a else b)"

text \<open>
  The price of a row in \<open>uploadDataToFirestore\<close>, the same two lines as in \<open>processData\<close>.
\<close>

definition dimPrice :: "jsval \<Rightarrow> jsval" where
  "dimPrice v =
     (let p = (case v of Prim (JStr s) \<Rightarrow> Prim (JNum (parseFloat (stripCurrency s))) | _ \<Rightarrow> v)
      in if p = Prim JUndefined \<or> p = Prim JNull \<or> toNumber p = NaN then Prim (JNum (Fin 0))
         else p)"

text \<open>
  A number after \<open>JSON.parse(JSON.stringify(record))\<close>: \<open>NaN\<close> and the infinities come
  back as \<open>null\<close>. Strings come back as they are.
\<close>

definition jsonNumber :: "jsnum \<Rightarrow> prim" where
  "jsonNumber x = (case x of Fin q \<Rightarrow> JNum (Fin q) | _ \<Rightarrow> JNull)"

text \<open>
  \<^verbatim>\<open>(row['Address'] || '').trim().toLowerCase()\<close>: the value is not turned into a string
  first, so a truthy value that is not a string has no \<open>trim\<close> and the call throws.
\<close>

definition addressKey :: "jsval \<Rightarrow> error + string" where
  "addressKey v =
     (if truthy v then (case v of Prim (JStr s) \<Rightarrow> Inr (toLowerCase (trim s)) | _ \<Rightarrow> Inl TypeError)
      else Inr (toLowerCase (trim '''')))"

text \<open>
  The callback of \<open>rawData.map\<close>: \<open>Inr None\<close> is the \<open>null\<close> returned for an invalid date,
  \<open>Inl\<close> an exception.
\<close>

definition cleanRecord :: "host \<Rightarrow> sheetRow \<Rightarrow> error + stored option" where
  "cleanRecord h r =
     (let dp = dimPrice (r ''Price'') in
      case parseDate h (r ''Closed Date'') of
        None \<Rightarrow> Inr None
      | Some t \<Rightarrow>
          (case addressKey (r ''Address'') of
             Inl e \<Rightarrow> Inl e
           | Inr a \<Rightarrow> Inr (Some
               \<lparr>address = JStr (trim (toText h
                    (orElseCell (r ''Address'') (orElseCell (r ''Street Name'')
                       (orElseCell (r ''Street Address'') (Prim (JStr ''''))))))),
                date = t,
                price = jsonNumber (toNumber dp),
                pricePerSqFt = jsonNumber (orZero (parsePrice (r ''Price Per SQFT''))),
                sqFt = jsonNumber (toNumber (orElseCell (r ''Apx SQFT'') (Prim (JNum (Fin 0))))),
                daysOnMarket =
                  jsonNumber (toNumber (orElseCell (r ''Days On Market'') (Prim (JNum (Fin 0))))),
                city = JStr (trim (toText h (orElseCell (r ''City'') (Prim (JStr ''Unknown''))))),
                subdivision =
                  JStr (trim (toText h (orElseCell (r ''Subdivision'') (Prim (JStr ''''))))),
                beds = jsonNumber (toNumber (orElseCell (r ''Beds'') (Prim (JNum (Fin 0))))),
                baths = jsonNumber (toNumber (orElseCell (r ''Full Baths'') (Prim (JNum (Fin 0))))),
                year = localYear h t,
                newConstruction = JStr (normalizeYesNo h (r ''New Construction?'')),
                insideCityLimits = JStr (normalizeCityLimits h
                    (orElseCell (r ''Inside City Limits'') (r ''Inside City Limit''))),
                uniqueKey = numberToString h (Fin (of_int t)) @ ''-'' @ a @ ''-''
                    @ toText h dp\<rparr>)))"

fun mapRows :: "host \<Rightarrow> sheetRow list \<Rightarrow> error + stored option list" where
  "mapRows h [] = Inr []"
| "mapRows h (r # rs) =
     (case cleanRecord h r of
        Inl e \<Rightarrow> Inl e
      | Inr x \<Rightarrow> (case mapRows h rs of Inl e \<Rightarrow> Inl e | Inr xs \<Rightarrow> Inr (x # xs)))"

text \<open>\<^verbatim>\<open>.filter(d => d !== null && d.price > 0 && d.year > 2000)\<close>\<close>

definition kept :: "stored \<Rightarrow> bool" where
  "kept d \<longleftrightarrow> gt0 (primToNumber (price d)) \<and> 2000 < year d"

definition cleanRecords :: "host \<Rightarrow> sheetRow list \<Rightarrow> error + stored list" where
  "cleanRecords h rawData = (case mapRows h rawData of
       Inl e \<Rightarrow> Inl e
     | Inr xs \<Rightarrow> Inr (filter kept (List.map_filter id xs)))"

subsection \<open>Writing in batches\<close>

text \<open>
  The collection: the document stored under each identifier. \<open>batch.set\<close> replaces the
  document; the writes of a batch take effect in their order when it is committed, and
  the batches are committed one after the other. A commit that fails is not modelled.
\<close>

type_synonym collection = "string \<rightharpoonup> stored"

definition safeKey :: "string \<Rightarrow> string" where
  "safeKey k = map (\<lambda>c. if c = CHR ''/'' then CHR ''_'' else c) k"

definition batchSet :: "collection \<Rightarrow> stored \<Rightarrow> collection" where
  "batchSet st record = st(safeKey (uniqueKey record) \<mapsto> record)"

definition commitBatch :: "collection \<Rightarrow> stored list \<Rightarrow> collection" where
  "commitBatch st chunk = foldl batchSet st chunk"

definition batchSize :: nat where
  "batchSize = 400"

function uploadFrom :: "nat \<Rightarrow> stored list \<Rightarrow> collection \<Rightarrow> collection" where
  "uploadFrom i cleanRecs st =
     (if i < length cleanRecs
      then uploadFrom (i + batchSize) cleanRecs
             (commitBatch st (take batchSize (drop i cleanRecs)))
      else st)"
  by pat_completeness auto
termination
  by (relation "measure (\<lambda>(i, cleanRecs, st). length cleanRecs - i)") (auto simp: batchSize_def)

declare uploadFrom.simps [simp del]

definition uploadDataToFirestore ::
  "host \<Rightarrow> sheetRow list \<Rightarrow> collection \<Rightarrow> error + collection" where
  "uploadDataToFirestore h rawData st = (case cleanRecords h rawData of
       Inl e \<Rightarrow> Inl e
     | Inr cleanRecs \<Rightarrow> Inr (uploadFrom 0 cleanRecs st))"

text \<open>The fields of a stored document, by name.\<close>

definition documentFields :: "stored \<Rightarrow> (string \<times> jsval) list" where
  "documentFields d =
     [(''address'', Prim (address d)),
      (''date'', DateObj (Some (date d))),
      (''price'', Prim (price d)),
      (''pricePerSqFt'', Prim (pricePerSqFt d)),
      (''sqFt'', Prim (sqFt d)),
      (''daysOnMarket'', Prim (daysOnMarket d)),
      (''city'', Prim (city d)),
      (''subdivision'', Prim (subdivision d)),
      (''beds'', Prim (beds d)),
      (''baths'', Prim (baths d)),
      (''year'', Prim (JNum (Fin (of_int (year d))))),
      (''newConstruction'', Prim (newConstruction d)),
      (''insideCityLimits'', Prim (insideCityLimits d)),
      (''uniqueKey'', Prim (JStr (uniqueKey d)))]"

section \<open>A host for the examples\<close>

text \<open>
  The examples below run on a host in the UTC time zone whose \<open>Date.parse\<close> reads the
  date-only ISO form \<open>YYYY-MM-DD\<close> (midnight UTC) and nothing else, and which prints a
  fraction with at most twenty digits after the point.
\<close>

definition civilYear :: "int \<Rightarrow> int" where
  "civilYear days =
     (let z = days + 719468;
          era = z div 146097;
          doe = z mod 146097;
          yoe = (doe - doe div 1460 + doe div 36524 - doe div 146096) div 365;
          doy = doe - (365 * yoe + yoe div 4 - yoe div 100);
          mp = (5 * doy + 2) div 153;
          m = (if mp < 10 then mp + 3 else mp - 9)
      in yoe + era * 400 + (if m \<le> 2 then 1 else 0))"

definition utcYear :: "int \<Rightarrow> int" where
  "utcYear t = civilYear (t div 86400000)"

definition daysFromCivil :: "int \<Rightarrow> int \<Rightarrow> int \<Rightarrow> int" where
  "daysFromCivil y m d =
     (let y' = (if m \<le> 2 then y - 1 else y);
          era = y' div 400;
          yoe = y' mod 400;
          doy = (153 * (if 2 < m then m - 3 else m + 9) + 2) div 5 + d - 1;
          doe = yoe * 365 + yoe div 4 - yoe div 100 + doy
      in era * 146097 + doe - 719468)"

definition isoDate :: "string \<Rightarrow> int option" where
  "isoDate s =
     (let y = take 4 s; m = take 2 (drop 5 s); d = take 2 (drop 8 s) in
      if length s = 10 \<and> s ! 4 = CHR ''-'' \<and> s ! 7 = CHR ''-''
         \<and> list_all isDigit (y @ m @ d)
         \<and> 1 \<le> digitsValue m \<and> digitsValue m \<le> 12 \<and> 1 \<le> digitsValue d \<and> digitsValue d \<le> 31
      then Some (daysFromCivil (int (digitsValue y)) (int (digitsValue m)) (int (digitsValue d))
                   * 86400000)
      else None)"

fun fractionDigits :: "nat \<Rightarrow> rat \<Rightarrow> string" where
  "fractionDigits 0 r = []"
| "fractionDigits (Suc n) r =
     (if r = 0 then []
      else digitChar (nat \<lfloor>r * 10\<rfloor>) # fractionDigits n (r * 10 - of_int \<lfloor>r * 10\<rfloor>))"

definition decimalText :: "rat \<Rightarrow> string" where
  "decimalText q =
     (let a = \<bar>q\<bar> in
      (if q < 0 then ''-'' else '''') @ intText \<lfloor>a\<rfloor> @ ''.'' @ fractionDigits 20 (a - of_int \<lfloor>a\<rfloor>))"

definition utcHost :: host where
  "utcHost = \<lparr>dateParse = isoDate, localYear = utcYear, numberText = decimalText,
     dateText = (\<lambda>t. case t of None \<Rightarrow> ''Invalid Date'' | Some ms \<Rightarrow> ''Date '' @ intText ms)\<rparr>"

subsection \<open>Example records\<close>

text \<open>A document of the store dated 2022-05-01, as \<open>processData\<close> receives it.\<close>

definition sampleRow :: "string \<Rightarrow> string \<Rightarrow> prim \<Rightarrow> rat \<Rightarrow> row" where
  "sampleRow addr cty p sq =
     \<lparr>rowDate = 1651363200000,
      rowFields = (\<lambda>_. JUndefined)(''address'' := JStr addr, ''city'' := JStr cty,
        ''price'' := p, ''sqFt'' := JNum (Fin sq))\<rparr>"

definition sampleListing :: "string \<Rightarrow> string \<Rightarrow> prim \<Rightarrow> rat \<Rightarrow> listing" where
  "sampleListing addr cty p sq = toListing utcHost (sampleRow addr cty p sq)"

text \<open>A record whose city is the text \<open>2020\<close>.\<close>

definition city2020 :: listing where
  "city2020 = sampleListing ''1 Main St'' ''2020'' (JNum (Fin 200000)) 1500"

text \<open>A row of an uploaded sheet closed on 2022-05-01.\<close>

definition sampleSheetRow :: "jsval \<Rightarrow> jsval \<Rightarrow> jsval \<Rightarrow> sheetRow" where
  "sampleSheetRow addr p sq =
     (\<lambda>_. Prim JUndefined)(''Address'' := addr, ''Closed Date'' := Prim (JStr ''2022-05-01''),
       ''Price'' := p, ''Apx SQFT'' := sq)"

subsection \<open>The histogram as specified\<close>




section \<open>Facts: field coercion\<close>

lemmas parse_defs = parseFloat_def stripCurrency_def signedDecimal_def unsignedDecimal_def
  trimStart_def isWhiteSpace_def isDigit_def exponentPart_def digitsValue_def digitVal_def
  scale10_def negate_def

text \<open>
  C4, as the code has it. \<open>parsePrice\<close> returns a number unchanged (\<open>NaN\<close> included),
  returns \<open>parseFloat\<close> of a string stripped of \<open>$\<close> and \<open>,\<close>, and returns \<open>0\<close> for every
  other type of input. Its result is \<open>NaN\<close> exactly for the number \<open>NaN\<close> and for a string
  whose stripped text \<open>parseFloat\<close> cannot read; only the caller's \<open>|| 0\<close> turns that into
  \<open>0\<close>.
\<close>

theorem parsePrice_fallbacks:
  "parsePrice (Prim (JNum x)) = x
   \<and> parsePrice (Prim (JStr s)) = parseFloat (stripCurrency s)
   \<and> parsePrice (Prim JUndefined) = Fin 0
   \<and> parsePrice (Prim JNull) = Fin 0
   \<and> parsePrice (Prim (JBool b)) = Fin 0
   \<and> parsePrice (DateObj t) = Fin 0
   \<and> (parsePrice v = NaN \<longleftrightarrow>
        v = Prim (JNum NaN) \<or> (\<exists>u. v = Prim (JStr u) \<and> parseFloat (stripCurrency u) = NaN))
   \<and> orZero (parsePrice v) \<noteq> NaN"
  by (auto simp: parsePrice_def orZero_def truthyNum_def split: jsval.splits prim.splits)

theorem parsePrice_fallbacks_witness:
  "parsePrice (Prim (JStr ''$200,000'')) = Fin 200000
   \<and> parsePrice (Prim (JStr ''N/A'')) = NaN
   \<and> orZero (parsePrice (Prim (JStr ''N/A''))) = Fin 0"
  using parsePrice_fallbacks [of NaN "''$200,000''" True None "Prim (JStr ''N/A'')"]
  by (simp add: parse_defs orZero_def truthyNum_def)

text \<open>
  C4, as the specification states it, fails: \<open>parsePrice\<close> itself turns an unparsable
  string into \<open>NaN\<close>, not into \<open>0\<close>.
\<close>

theorem parsePrice_unparsable_counterexample:
  "parsePrice (Prim (JStr ''N/A'')) = NaN \<and> parsePrice (Prim (JStr ''N/A'')) \<noteq> Fin 0"
  by (simp add: parsePrice_def parse_defs)

section \<open>Facts: evaluation on the example host\<close>

lemma utcYear_2022: "utcYear 1651363200000 = 2022"
  by code_simp

lemma sampleListing_fields:
  "address (sampleListing addr cty p sq) = orElse (JStr addr) (JStr '''')
   \<and> date (sampleListing addr cty p sq) = 1651363200000
   \<and> price (sampleListing addr cty p sq) = dimPricePrim p
   \<and> sqFt (sampleListing addr cty p sq) = orElse (JNum (Fin sq)) (JNum (Fin 0))
   \<and> city (sampleListing addr cty p sq) = orElse (JStr cty) (JStr ''Unknown'')
   \<and> year (sampleListing addr cty p sq) = 2022
   \<and> newConstruction (sampleListing addr cty p sq) = JStr ''No''
   \<and> insideCityLimits (sampleListing addr cty p sq) = JStr ''Unknown''"
  by (simp add: sampleListing_def sampleRow_def toListing_def orElse_def truthyPrim_def
      utcHost_def utcYear_2022)

lemma sniffed_2020: "sniffed ''2020'' = JNum (Fin 2020)"
  by (simp add: sniffed_def parse_defs stringToNumber_def trim_def hasHexPrefix_def
      isFiniteNum_def)

section \<open>Facts: rounding to binary64\<close>

text \<open>The binary exponent brackets a positive number between two powers of two.\<close>

lemma ilog2_bounds:
  assumes "0 < a"
  shows "2 powi (ilog2 a) \<le> a" and "a < 2 powi (ilog2 a + 1)"
proof -
  show "2 powi (ilog2 a) \<le> a"
  proof (cases "1 \<le> a")
    case True
    then have n: "0 < \<lfloor>a\<rfloor>" by simp
    from bitlen_bounds [OF n] have "2 ^ nat (bitlen \<lfloor>a\<rfloor> - 1) \<le> \<lfloor>a\<rfloor>" by simp
    then have "(of_int (2 ^ nat (bitlen \<lfloor>a\<rfloor> - 1)) :: rat) \<le> of_int \<lfloor>a\<rfloor>"
      by (simp only: of_int_le_iff)
    also have "\<dots> \<le> a" by simp
    finally have "(2::rat) ^ nat (bitlen \<lfloor>a\<rfloor> - 1) \<le> a" by simp
    moreover have "0 \<le> bitlen \<lfloor>a\<rfloor> - 1"
      using n by (simp add: bitlen_alt_def)
    ultimately show ?thesis
      using True by (simp add: ilog2_def power_int_def)
  next
    case False
    define m where "m = \<lceil>1 / a\<rceil>"
    have x: "1 < 1 / a" using False assms by simp
    then have m2: "0 < m - 1" unfolding m_def by linarith
    from bitlen_bounds [OF m2] have "m - 1 < 2 ^ nat (bitlen (m - 1))" by simp
    then have "m \<le> 2 ^ nat (bitlen (m - 1))" by simp
    then have "(of_int m :: rat) \<le> of_int (2 ^ nat (bitlen (m - 1)))"
      by (simp only: of_int_le_iff)
    moreover have "1 / a \<le> of_int m" unfolding m_def by simp
    ultimately have "1 / a \<le> of_int (2 ^ nat (bitlen (m - 1)))" by linarith
    then have "1 / a \<le> 2 ^ nat (bitlen (m - 1))" by simp
    then have "1 / 2 ^ nat (bitlen (m - 1)) \<le> a"
      using assms by (simp add: field_simps)
    moreover have "1 \<le> bitlen (m - 1)" using m2 by (simp add: bitlen_alt_def)
    then have "2 powi (- bitlen (m - 1)) = (1::rat) / 2 ^ nat (bitlen (m - 1))"
      by (simp add: power_int_def inverse_eq_divide power_one_over)
    ultimately show ?thesis
      using False by (simp add: ilog2_def m_def)
  qed
  show "a < 2 powi (ilog2 a + 1)"
  proof (cases "1 \<le> a")
    case True
    then have n: "0 < \<lfloor>a\<rfloor>" by simp
    from bitlen_bounds [OF n] have "\<lfloor>a\<rfloor> + 1 \<le> 2 ^ nat (bitlen \<lfloor>a\<rfloor>)" by simp
    then have "(of_int (\<lfloor>a\<rfloor> + 1) :: rat) \<le> of_int (2 ^ nat (bitlen \<lfloor>a\<rfloor>))"
      by (simp only: of_int_le_iff)
    moreover have "a < of_int (\<lfloor>a\<rfloor> + 1)" by linarith
    ultimately have "a < of_int (2 ^ nat (bitlen \<lfloor>a\<rfloor>))" by linarith
    then have "a < 2 ^ nat (bitlen \<lfloor>a\<rfloor>)" by simp
    moreover have "0 \<le> bitlen \<lfloor>a\<rfloor>" by (rule bitlen_nonneg)
    ultimately show ?thesis
      using True by (simp add: ilog2_def power_int_def)
  next
    case False
    define m where "m = \<lceil>1 / a\<rceil>"
    define c where "c = bitlen (m - 1)"
    have x: "1 < 1 / a" using False assms by simp
    then have m2: "0 < m - 1" unfolding m_def by linarith
    have c1: "1 \<le> c" using m2 by (simp add: c_def bitlen_alt_def)
    from bitlen_bounds [OF m2] have "2 ^ nat (c - 1) \<le> m - 1" by (simp add: c_def)
    then have "(of_int (2 ^ nat (c - 1)) :: rat) \<le> of_int (m - 1)"
      by (simp only: of_int_le_iff)
    moreover have "of_int (m - 1) < 1 / a" unfolding m_def by linarith
    ultimately have "of_int (2 ^ nat (c - 1)) < 1 / a" by linarith
    then have "2 ^ nat (c - 1) < 1 / a" by simp
    then have lt: "a < 1 / 2 ^ nat (c - 1)"
      using assms by (simp add: field_simps)
    have "ilog2 a + 1 = - (c - 1)"
      using False by (simp add: ilog2_def m_def c_def)
    then have "2 powi (ilog2 a + 1) = (1::rat) / 2 ^ nat (c - 1)"
      using c1 by (simp add: power_int_def inverse_eq_divide power_one_over)
    with lt show ?thesis by simp
  qed
qed

lemma roundHalfEven_of_int [simp]: "roundHalfEven (of_int k) = k"
  by (simp add: roundHalfEven_def)

lemma roundHalfEven_ge: "of_int k \<le> x \<Longrightarrow> k \<le> roundHalfEven x"
proof -
  assume "of_int k \<le> x"
  then have "k \<le> \<lfloor>x\<rfloor>" by (simp add: le_floor_iff)
  then show ?thesis by (simp add: roundHalfEven_def Let_def)
qed


text \<open>
  The sign of a rounded difference of binary64 values is the sign of the exact difference:
  every binary64 value is a multiple of \<open>minSubnormal\<close>, and nothing of that size rounds to
  zero. A number with at most 53 significant bits, not below the subnormal grid and of
  magnitude below \<open>2\<^sup>1\<^sup>0\<^sup>2\<^sup>4\<close>, is a binary64 value.
\<close>

lemma minSubnormal_pos: "0 < minSubnormal"
  by (simp add: minSubnormal_def)

lemma pow2_less: "(2::rat) powi m < 2 powi n \<Longrightarrow> m < n"
proof (rule ccontr)
  assume a: "(2::rat) powi m < 2 powi n" and "\<not> m < n"
  then have "n \<le> m" by simp
  then have "(2::rat) powi n \<le> 2 powi m" by (rule power_int_increasing) simp
  with a show False by simp
qed

lemma ulp_pos: "0 < ulp a"
  by (simp add: ulp_def)

lemma roundHalfEven_nonneg: "0 \<le> x \<Longrightarrow> 0 \<le> roundHalfEven x"
  using roundHalfEven_ge [of 0 x] by simp

lemma round64_nonpos: "d \<le> 0 \<Longrightarrow> \<not> gt0 (round64 d)"
proof -
  assume d: "d \<le> 0"
  have "0 \<le> \<bar>d\<bar> / ulp \<bar>d\<bar>" using ulp_pos [of "\<bar>d\<bar>"] by simp
  then have "0 \<le> roundHalfEven (\<bar>d\<bar> / ulp \<bar>d\<bar>)" by (rule roundHalfEven_nonneg)
  then have "0 \<le> of_int (roundHalfEven (\<bar>d\<bar> / ulp \<bar>d\<bar>)) * ulp \<bar>d\<bar>"
    using ulp_pos [of "\<bar>d\<bar>"] by simp
  then show ?thesis using d by (simp add: round64_def gt0_def Let_def)
qed

lemma ulp_le: "minSubnormal \<le> a \<Longrightarrow> ulp a \<le> a"
proof -
  assume a: "minSubnormal \<le> a"
  have pos: "0 < a" by (rule less_le_trans [OF minSubnormal_pos a])
  show ?thesis
  proof (cases "- 1022 \<le> ilog2 a")
    case True
    then have "ulp a = 2 powi (ilog2 a - 52)" by (simp add: ulp_def max_def)
    also have "\<dots> \<le> 2 powi (ilog2 a)" by (rule power_int_increasing) simp_all
    also have "\<dots> \<le> a" by (rule ilog2_bounds(1) [OF pos])
    finally show ?thesis .
  next
    case False
    then have "ulp a = minSubnormal" by (simp add: ulp_def max_def minSubnormal_def)
    with a show ?thesis by simp
  qed
qed

lemma round64_pos: "minSubnormal \<le> d \<Longrightarrow> gt0 (round64 d)"
proof -
  assume a: "minSubnormal \<le> d"
  have pos: "0 < d" by (rule less_le_trans [OF minSubnormal_pos a])
  have "1 \<le> d / ulp d" using ulp_le [OF a] ulp_pos [of d] by simp
  then have "of_int 1 \<le> d / ulp d" by simp
  then have "1 \<le> roundHalfEven (d / ulp d)" by (rule roundHalfEven_ge)
  then have "0 < of_int (roundHalfEven (d / ulp d)) * ulp d"
    using ulp_pos [of d] by simp
  then show ?thesis using pos by (simp add: round64_def gt0_def Let_def)
qed

lemma ulp_grid: "\<exists>n. ulp a = 2 ^ n * minSubnormal"
proof -
  define m where "m = max (ilog2 a) (- 1022) - 52"
  have m: "- 1074 \<le> m" by (simp add: m_def)
  have "(2::rat) powi m = 2 powi (m + 1074) * minSubnormal"
    unfolding minSubnormal_def by (subst power_int_add [symmetric]) simp_all
  also have "(2::rat) powi (m + 1074) = 2 ^ nat (m + 1074)"
    using m by (simp add: power_int_def)
  finally show ?thesis unfolding ulp_def m_def by blast
qed

lemma round64_unfold:
  "q \<noteq> 0 \<Longrightarrow> r = roundHalfEven (\<bar>q\<bar> / ulp \<bar>q\<bar>) \<Longrightarrow> u = ulp \<bar>q\<bar> \<Longrightarrow>
   round64 q = (if 2 ^ 1024 \<le> of_int r * u then (if 0 < q then PInf else NInf)
                else Fin (if 0 < q then of_int r * u else - (of_int r * u)))"
  by (simp only: round64_def Let_def if_False)

lemma double_grid: "isDouble x \<Longrightarrow> \<exists>k. x = of_int k * minSubnormal"
proof -
  assume d: "isDouble x"
  define u where "u = ulp \<bar>x\<bar>"
  define r where "r = roundHalfEven (\<bar>x\<bar> / ulp \<bar>x\<bar>)"
  obtain n where n: "u = 2 ^ n * minSubnormal" unfolding u_def using ulp_grid by blast
  show ?thesis
  proof (cases "x = 0")
    case True
    then have "x = of_int 0 * minSubnormal" by simp
    then show ?thesis by blast
  next
    case False
    from d have "round64 x = Fin x" by (simp only: isDouble_def)
    then have "x = (if 0 < x then of_int r * u else - (of_int r * u))"
      unfolding round64_unfold [OF False r_def u_def] by (simp split: if_splits)
    then have "x = of_int ((if 0 < x then r else - r) * 2 ^ n) * minSubnormal"
      unfolding n by (simp split: if_splits)
    then show ?thesis by blast
  qed
qed

lemma round64_sign:
  assumes "isDouble x" and "isDouble y"
  shows "gt0 (round64 (x - y)) \<longleftrightarrow> y < x"
proof (cases "y < x")
  case True
  obtain k where k: "x = of_int k * minSubnormal" using double_grid [OF assms(1)] by blast
  obtain l where l: "y = of_int l * minSubnormal" using double_grid [OF assms(2)] by blast
  have "of_int l * minSubnormal < of_int k * minSubnormal"
    using True by (simp only: k l)
  then have "(of_int l :: rat) < of_int k" using minSubnormal_pos by simp
  then have "l + 1 \<le> k" by simp
  then have "(of_int (l + 1) :: rat) \<le> of_int k" by (simp only: of_int_le_iff)
  then have "of_int (l + 1) * minSubnormal \<le> of_int k * minSubnormal"
    by (rule mult_right_mono) (simp add: less_imp_le [OF minSubnormal_pos])
  then have "minSubnormal \<le> x - y" by (simp add: k l algebra_simps)
  then show ?thesis using True by (simp add: round64_pos)
next
  case False
  then have "x - y \<le> 0" by simp
  then show ?thesis using False by (simp add: round64_nonpos)
qed

lemma round64_grid:
  assumes k: "\<bar>k\<bar> < 2 ^ 53" and j: "- 1074 \<le> j"
    and q: "q = of_int k * 2 powi j" and b: "\<bar>q\<bar> < 2 ^ 1024"
  shows "round64 q = Fin q"
proof (cases "q = 0")
  case True
  then show ?thesis by (simp add: round64_def)
next
  case False
  define a where "a = \<bar>q\<bar>"
  define m where "m = max (ilog2 a) (- 1022) - 52"
  define u where "u = ulp a"
  define r where "r = roundHalfEven (a / ulp a)"
  define K where "K = \<bar>k\<bar> * 2 ^ nat (j - m)"
  have pos: "0 < a" using False by (simp add: a_def)
  have a: "a = of_int \<bar>k\<bar> * 2 powi j" by (simp add: a_def q abs_mult)
  have "(of_int \<bar>k\<bar> :: rat) < of_int (2 ^ 53)" using k by (simp only: of_int_less_iff)
  then have "of_int \<bar>k\<bar> * 2 powi j < (2::rat) ^ 53 * 2 powi j"
    by (intro mult_strict_right_mono) simp_all
  also have "(2::rat) ^ 53 * 2 powi j = 2 powi (53 + j)"
    by (simp add: power_int_add)
  finally have "a < 2 powi (53 + j)" by (simp only: a)
  with ilog2_bounds(1) [OF pos] have "(2::rat) powi (ilog2 a) < 2 powi (53 + j)" by simp
  then have "ilog2 a < 53 + j" by (rule pow2_less)
  then have mj: "m \<le> j" using j by (simp add: m_def)
  have u: "u = 2 powi m" by (simp add: u_def ulp_def m_def)
  have upos: "0 < u" by (simp add: u)
  have "(2::rat) powi j = 2 powi (j - m) * 2 powi m"
    by (subst power_int_add [symmetric]) simp_all
  also have "(2::rat) powi (j - m) = of_int (2 ^ nat (j - m))"
    using mj by (simp add: power_int_def)
  finally have pj: "(2::rat) powi j = of_int (2 ^ nat (j - m)) * u" by (simp only: u)
  have au: "a = of_int K * u" by (simp add: a pj K_def)
  then have "a / u = of_int K" using upos by simp
  then have "r = K" by (simp add: r_def u_def [symmetric])
  then have v: "of_int r * u = a" by (simp add: au)
  have "round64 q = (if 2 ^ 1024 \<le> of_int r * u then (if 0 < q then PInf else NInf)
                else Fin (if 0 < q then of_int r * u else - (of_int r * u)))"
    by (rule round64_unfold [OF False]) (simp_all add: r_def u_def a_def)
  also have "\<dots> = Fin q" unfolding v using b by (simp add: a_def)
  finally show ?thesis .
qed

lemma round64_of_int: "\<bar>k\<bar> \<le> 2 ^ 53 \<Longrightarrow> round64 (of_int k) = Fin (of_int k)"
proof (cases "\<bar>k\<bar> < 2 ^ 53")
  case True
  have "\<bar>of_int k :: rat\<bar> = of_int \<bar>k\<bar>" by simp
  also have "\<dots> < of_int (2 ^ 53)" using True by (simp only: of_int_less_iff)
  also have "\<dots> < (2::rat) ^ 1024" by simp
  finally show ?thesis using True by (intro round64_grid [where k = k and j = 0]) simp_all
next
  case False
  assume "\<bar>k\<bar> \<le> 2 ^ 53"
  with False have "k = 2 ^ 53 \<or> k = - (2 ^ 53)" by (auto simp: abs_if split: if_splits)
  then have "of_int k = of_int (k div 2 ^ 53) * (2::rat) powi 53" and "\<bar>k div 2 ^ 53\<bar> < 2 ^ 53"
    by auto
  moreover have "\<bar>of_int k :: rat\<bar> < 2 ^ 1024"
    using \<open>k = 2 ^ 53 \<or> k = - (2 ^ 53)\<close> by auto
  ultimately show ?thesis by (intro round64_grid [where k = "k div 2 ^ 53" and j = 53]) simp_all
qed




lemma round64_overflow:
  assumes "2 ^ 1024 \<le> q"
  shows "round64 q = PInf"
proof -
  define u where "u = ulp \<bar>q\<bar>"
  define r where "r = roundHalfEven (\<bar>q\<bar> / ulp \<bar>q\<bar>)"
  have pos: "0 < q" by (rule less_le_trans [OF _ assms]) simp
  have a: "\<bar>q\<bar> = q" using pos by simp
  have "(2::rat) powi 1024 \<le> q" using assms by simp
  also have "q < 2 powi (ilog2 q + 1)" by (rule ilog2_bounds(2) [OF pos])
  finally have e: "1024 < ilog2 q + 1" by (rule pow2_less)
  then have u: "u = 2 powi (ilog2 q - 52)" by (simp add: u_def a ulp_def)
  have upos: "0 < u" by (simp add: u)
  have "(2::rat) powi (ilog2 q) = 2 powi 52 * 2 powi (ilog2 q - 52)"
    by (subst power_int_add [symmetric]) simp_all
  then have eu: "(2::rat) powi (ilog2 q) = of_int (2 ^ 52) * u" by (simp add: u)
  have "of_int (2 ^ 52) * u \<le> q" using ilog2_bounds(1) [OF pos] by (simp only: eu)
  then have "of_int (2 ^ 52) \<le> q / u" using upos by (simp add: pos_le_divide_eq)
  then have "2 ^ 52 \<le> r" unfolding r_def u_def a by (rule roundHalfEven_ge)
  then have "(of_int (2 ^ 52) :: rat) \<le> of_int r" by (simp only: of_int_le_iff)
  then have "of_int (2 ^ 52) * u \<le> of_int r * u"
    using upos by (intro mult_right_mono) simp_all
  then have "(2::rat) powi (ilog2 q) \<le> of_int r * u" by (simp only: eu)
  moreover have "(2::rat) powi 1024 \<le> 2 powi (ilog2 q)"
    using e by (intro power_int_increasing) simp_all
  ultimately have big: "2 ^ 1024 \<le> of_int r * u" by simp
  have nz: "q \<noteq> 0" using pos by simp
  show ?thesis
    unfolding round64_unfold [OF nz r_def u_def] using big pos by simp
qed

lemma isDouble_of_int: "\<bar>k\<bar> \<le> 2 ^ 53 \<Longrightarrow> isDouble (of_int k)"
  by (simp add: isDouble_def round64_of_int)

lemma round64_numeral: "numeral n \<le> (2::int) ^ 53 \<Longrightarrow> round64 (numeral n) = Fin (numeral n)"
  using round64_of_int [of "numeral n"] by simp

lemma isDouble_numeral: "numeral n \<le> (2::int) ^ 53 \<Longrightarrow> isDouble (numeral n)"
  by (simp add: isDouble_def round64_numeral)

lemma round64_half_int:
  assumes "\<bar>k\<bar> \<le> 2 ^ 53"
  shows "round64 (of_int k / 2) = Fin (of_int k / 2)"
proof (cases "\<bar>k\<bar> < 2 ^ 53")
  case True
  have "\<bar>of_int k / 2 :: rat\<bar> \<le> of_int \<bar>k\<bar>" by simp
  also have "\<dots> < of_int (2 ^ 53)" using True by (simp only: of_int_less_iff)
  also have "\<dots> < (2::rat) ^ 1024" by simp
  finally have b: "\<bar>of_int k / 2 :: rat\<bar> < 2 ^ 1024" .
  have q: "of_int k / 2 = of_int k * (2::rat) powi (- 1)"
    by (simp add: power_int_minus)
  have j: "- 1074 \<le> (- 1 :: int)" by simp
  show ?thesis by (rule round64_grid [OF True j q b])
next
  case False
  with assms have "k = 2 ^ 53 \<or> k = - (2 ^ 53)" by (auto simp: abs_if split: if_splits)
  then show ?thesis
  proof
    assume "k = 2 ^ 53"
    then have "(of_int k / 2 :: rat) = of_int (2 ^ 52)" by simp
    moreover have "round64 (of_int (2 ^ 52)) = Fin (of_int (2 ^ 52))"
      by (rule round64_of_int) simp
    ultimately show ?thesis by (simp only:)
  next
    assume "k = - (2 ^ 53)"
    then have "(of_int k / 2 :: rat) = of_int (- (2 ^ 52))" by simp
    moreover have "round64 (of_int (- (2 ^ 52))) = Fin (of_int (- (2 ^ 52)))"
      by (rule round64_of_int) simp
    ultimately show ?thesis by (simp only:)
  qed
qed

lemma isDouble_one: "isDouble 1"
  using isDouble_of_int [of 1] by simp

lemma ilog2_tie: "ilog2 9007199254740993 = 53"
  by code_simp

lemma roundHalfEven_tie: "roundHalfEven (9007199254740993 / 2) = 4503599627370496"
  by code_simp

lemma round64_tie: "round64 9007199254740993 = Fin 9007199254740992"
proof -
  have u: "ulp \<bar>9007199254740993\<bar> = 2" by (simp add: ulp_def ilog2_tie)
  have r: "roundHalfEven (\<bar>9007199254740993\<bar> / ulp \<bar>9007199254740993\<bar>) = 4503599627370496"
    by (simp only: u) (simp add: roundHalfEven_tie)
  show ?thesis
    by (subst round64_unfold [OF _ r [symmetric] u [symmetric]]) simp_all
qed

lemma isDouble_max: "isDouble maxDouble"
proof -
  have "round64 maxDouble = Fin maxDouble"
    by (rule round64_grid [where k = "2 ^ 53 - 1" and j = 971]) (simp_all add: maxDouble_def)
  then show ?thesis by (simp only: isDouble_def)
qed

lemma integers_average:
  assumes "isInteger a" and "\<bar>a\<bar> \<le> 2 ^ 52" and "isInteger b" and "\<bar>b\<bar> \<le> 2 ^ 52"
  shows "isDouble (a + b) \<and> isDouble ((a + b) / 2)"
proof -
  define k where "k = \<lfloor>a\<rfloor> + \<lfloor>b\<rfloor>"
  have a: "a = of_int \<lfloor>a\<rfloor>" using assms(1) unfolding isInteger_def by (rule sym)
  have b: "b = of_int \<lfloor>b\<rfloor>" using assms(3) unfolding isInteger_def by (rule sym)
  have "(of_int \<bar>\<lfloor>a\<rfloor>\<bar> :: rat) \<le> of_int (2 ^ 52)"
    using assms(2) by (subst (asm) a) simp
  then have ka: "\<bar>\<lfloor>a\<rfloor>\<bar> \<le> 2 ^ 52" by (simp only: of_int_le_iff)
  have "(of_int \<bar>\<lfloor>b\<rfloor>\<bar> :: rat) \<le> of_int (2 ^ 52)"
    using assms(4) by (subst (asm) b) simp
  then have kb: "\<bar>\<lfloor>b\<rfloor>\<bar> \<le> 2 ^ 52" by (simp only: of_int_le_iff)
  have k: "\<bar>k\<bar> \<le> 2 ^ 53" using ka kb by (simp add: k_def)
  have sum: "a + b = of_int k" by (subst a, subst b) (simp add: k_def)
  show ?thesis
    unfolding sum isDouble_def using round64_of_int [OF k] round64_half_int [OF k] by simp
qed

section \<open>Facts: median\<close>

lemma insertBy_Fin:
  "isDouble x \<Longrightarrow> \<forall>y\<in>set ys. isDouble y \<Longrightarrow>
     insertBy (\<lambda>a b. numSub a b) (Fin x) (map Fin ys) = map Fin (insort x ys)"
  by (induction ys) (auto simp: numSub_def round64_sign)

lemma jsSort_Fin:
  "\<forall>q\<in>set qs. isDouble q \<Longrightarrow> jsSort (\<lambda>a b. numSub a b) (map Fin qs) = map Fin (sort qs)"
proof (induction qs)
  case Nil
  then show ?case by (simp add: jsSort_def)
next
  case (Cons q qs)
  then have "jsSort (\<lambda>a b. numSub a b) (map Fin qs) = map Fin (sort qs)" by simp
  then have "jsSort (\<lambda>a b. numSub a b) (map Fin (q # qs))
      = insertBy (\<lambda>a b. numSub a b) (Fin q) (map Fin (sort qs))"
    by (simp add: jsSort_def)
  also have "\<dots> = map Fin (insort q (sort qs))"
    using Cons.prems by (intro insertBy_Fin) simp_all
  finally show ?case by (simp add: sort_key_def)
qed

lemma median_Fin:
  assumes "\<forall>q\<in>set qs. isDouble q"
  shows "median (map Fin qs) =
     (if qs = [] then Fin 0
      else if odd (length qs) then Fin (sort qs ! (length qs div 2))
      else (case round64 (sort qs ! (length qs div 2 - 1) + sort qs ! (length qs div 2)) of
              Fin s \<Rightarrow> round64 (s / 2) | z \<Rightarrow> z))"
proof (cases "qs = []")
  case True
  then show ?thesis by (simp add: median_def)
next
  case False
  then have pos: "0 < length qs" by simp
  then have mid: "length qs div 2 < length (sort qs)" by simp
  have mid': "length qs div 2 - 1 < length (sort qs)"
    using pos by (simp add: less_imp_diff_less)
  show ?thesis
    using False mid mid'
    by (simp add: median_def jsSort_Fin [OF assms] Let_def numAdd_def numSub_def numOver_def
        negate_def odd_iff_mod_2_eq_one split: jsnum.splits)
qed

text \<open>
  C7. On finite binary64 numbers \<open>median\<close> returns the middle element of the list sorted
  in ascending order when the count is odd and \<open>0\<close> for the empty list. When the count is
  even it returns the sum of the two middle elements, rounded, then halved, rounded: an
  infinity when the sum overflows, and the mean of the two whenever their sum and its
  half are binary64 values, as they are for integers of magnitude up to \<open>2\<^sup>5\<^sup>2\<close>. So
  \<open>median([100]) = 100\<close>, \<open>median([100, 300]) = 200\<close> and \<open>median([]) = 0\<close>.
\<close>

theorem median_of_sorted:
  assumes "\<forall>q\<in>set qs. isDouble q"
  shows "median (map Fin qs) =
       (if qs = [] then Fin 0
        else if odd (length qs) then Fin (sort qs ! (length qs div 2))
        else (case round64 (sort qs ! (length qs div 2 - 1) + sort qs ! (length qs div 2)) of
                Fin s \<Rightarrow> round64 (s / 2) | z \<Rightarrow> z))
   \<and> (qs \<noteq> [] \<and> even (length qs)
        \<and> isDouble (sort qs ! (length qs div 2 - 1) + sort qs ! (length qs div 2))
        \<and> isDouble ((sort qs ! (length qs div 2 - 1) + sort qs ! (length qs div 2)) / 2) \<longrightarrow>
      median (map Fin qs)
        = Fin ((sort qs ! (length qs div 2 - 1) + sort qs ! (length qs div 2)) / 2))
   \<and> (qs \<noteq> [] \<and> even (length qs) \<and> (\<forall>q\<in>set qs. isInteger q \<and> \<bar>q\<bar> \<le> 2 ^ 52) \<longrightarrow>
      median (map Fin qs)
        = Fin ((sort qs ! (length qs div 2 - 1) + sort qs ! (length qs div 2)) / 2))
   \<and> median [Fin 100] = Fin 100
   \<and> median [Fin 100, Fin 300] = Fin 200
   \<and> median [] = Fin 0"
proof -
  let ?a = "sort qs ! (length qs div 2 - 1)" and ?b = "sort qs ! (length qs div 2)"
  note general = median_Fin [OF assms]
  have exact: "median (map Fin qs) = Fin ((?a + ?b) / 2)"
    if "qs \<noteq> []" "even (length qs)" "isDouble (?a + ?b)" "isDouble ((?a + ?b) / 2)"
    using that general by (simp add: isDouble_def)
  have ints: "median (map Fin qs) = Fin ((?a + ?b) / 2)"
    if ne: "qs \<noteq> []" and ev: "even (length qs)"
      and int: "\<forall>q\<in>set qs. isInteger q \<and> \<bar>q\<bar> \<le> 2 ^ 52"
  proof -
    have pos: "0 < length qs" using ne by simp
    have "length qs div 2 < length (sort qs)" using pos by simp
    then have "?b \<in> set (sort qs)" by (rule nth_mem)
    then have b: "isInteger ?b \<and> \<bar>?b\<bar> \<le> 2 ^ 52" using int by simp
    have "length qs div 2 - 1 < length (sort qs)" using pos by (simp add: less_imp_diff_less)
    then have "?a \<in> set (sort qs)" by (rule nth_mem)
    then have a: "isInteger ?a \<and> \<bar>?a\<bar> \<le> 2 ^ 52" using int by simp
    from a b have "isDouble (?a + ?b) \<and> isDouble ((?a + ?b) / 2)"
      by (intro integers_average) simp_all
    with ne ev show ?thesis by (intro exact) simp_all
  qed
  have one: "median [Fin 100] = Fin 100"
    using median_Fin [of "[100]"] by (simp add: isDouble_numeral)
  have two: "median [Fin 100, Fin 300] = Fin 200"
    using median_Fin [of "[100, 300]"] by (simp add: isDouble_numeral round64_numeral)
  have none: "median [] = Fin 0" by (simp add: median_def)
  show ?thesis
  proof (intro conjI impI)
    show "median (map Fin qs) =
       (if qs = [] then Fin 0
        else if odd (length qs) then Fin (sort qs ! (length qs div 2))
        else (case round64 (?a + ?b) of Fin s \<Rightarrow> round64 (s / 2) | z \<Rightarrow> z))"
      by (rule general)
  next
    assume "qs \<noteq> [] \<and> even (length qs) \<and> isDouble (?a + ?b) \<and> isDouble ((?a + ?b) / 2)"
    then show "median (map Fin qs) = Fin ((?a + ?b) / 2)" by (intro exact) simp_all
  next
    assume "qs \<noteq> [] \<and> even (length qs) \<and> (\<forall>q\<in>set qs. isInteger q \<and> \<bar>q\<bar> \<le> 2 ^ 52)"
    then show "median (map Fin qs) = Fin ((?a + ?b) / 2)" by (intro ints) simp_all
  qed (fact one two none)+
qed

theorem median_of_sorted_witness:
  "median (map Fin [300, 100, 400, 200]) = Fin 250
   \<and> median (map Fin [3 / 2, 300, 100]) = Fin 100"
proof -
  have "\<forall>q\<in>set [300, 100, 400, 200 :: rat]. isDouble q"
    by (simp add: isDouble_numeral)
  moreover have "\<forall>q\<in>set [300, 100, 400, 200 :: rat]. isInteger q \<and> \<bar>q\<bar> \<le> 2 ^ 52"
    by (simp add: isInteger_def)
  moreover have "sort [300, 100, 400, 200 :: rat] = [100, 200, 300, 400]" by simp
  ultimately have "median (map Fin [300, 100, 400, 200]) = Fin 250"
    using median_of_sorted [of "[300, 100, 400, 200]"] by (simp add: round64_numeral)
  moreover have "isDouble (3 / 2)"
    using round64_half_int [of 3] by (simp add: isDouble_def)
  then have "\<forall>q\<in>set [3 / 2, 300, 100 :: rat]. isDouble q"
    by (simp add: isDouble_numeral)
  then have "median (map Fin [3 / 2, 300, 100]) = Fin 100"
    using median_of_sorted [of "[3 / 2, 300, 100]"] by simp
  ultimately show ?thesis by simp
qed

text \<open>
  The mean itself is not what an even count returns. Twice \<^verbatim>\<open>Number.MAX_VALUE\<close> overflows,
  so the median of two such values is \<open>Infinity\<close>; and \<open>2\<^sup>5\<^sup>3 + 1\<close> rounds to \<open>2\<^sup>5\<^sup>3\<close>, so the
  median of \<open>2\<^sup>5\<^sup>3\<close> and \<open>1\<close> is \<open>2\<^sup>5\<^sup>2\<close>.
\<close>

theorem median_average_counterexample:
  "isDouble maxDouble
   \<and> median [Fin maxDouble, Fin maxDouble] = PInf
   \<and> median [Fin maxDouble, Fin maxDouble] \<noteq> Fin ((maxDouble + maxDouble) / 2)
   \<and> isDouble 9007199254740992 \<and> isDouble 1
   \<and> median [Fin 9007199254740992, Fin 1] = Fin 4503599627370496
   \<and> median [Fin 9007199254740992, Fin 1] \<noteq> Fin ((9007199254740992 + 1) / 2)"
proof -
  have big: "round64 (2 * maxDouble) = PInf"
    by (rule round64_overflow) (simp add: maxDouble_def)
  have "median (map Fin [maxDouble, maxDouble]) = PInf"
    by (subst median_Fin) (simp_all add: isDouble_max big)
  then have max: "median [Fin maxDouble, Fin maxDouble] = PInf"
    by simp
  have d: "isDouble 9007199254740992" by (simp add: isDouble_numeral)
  have "median (map Fin [9007199254740992, 1]) = Fin 4503599627370496"
    by (subst median_Fin) (simp_all add: d isDouble_one round64_tie round64_numeral)
  then have tie: "median [Fin 9007199254740992, Fin 1] = Fin 4503599627370496" by simp
  have "median [Fin maxDouble, Fin maxDouble] \<noteq> Fin ((maxDouble + maxDouble) / 2)"
    by (simp only: max) simp
  moreover have "median [Fin 9007199254740992, Fin 1] \<noteq> Fin ((9007199254740992 + 1) / 2)"
    by (simp only: tie) simp
  ultimately show ?thesis
    using isDouble_max max d isDouble_one tie by (intro conjI)
qed

section \<open>Facts: filters\<close>

text \<open>
  C6. The filtered data is the subsequence of the records whose year, city,
  new-construction flag and city-limits flag each occur in the corresponding selection;
  when one selection is empty, whatever the other three, nothing is left.
\<close>

theorem filteredData_conjunctive:
  "filteredData fs rawData =
     filter (\<lambda>d. yearValue d \<in> set (selectedYears fs)
                \<and> city d \<in> set (selectedCities fs)
                \<and> newConstruction d \<in> set (selectedNewConstruction fs)
                \<and> insideCityLimits d \<in> set (selectedCityLimits fs)) rawData
   \<and> subseq (filteredData fs rawData) rawData
   \<and> (selectedYears fs = [] \<or> selectedCities fs = [] \<or> selectedNewConstruction fs = []
        \<or> selectedCityLimits fs = [] \<longrightarrow> filteredData fs rawData = [])
   \<and> filteredData (clearFilter k fs) rawData = []"
proof -
  have empty: "filteredData fs' rawData = []"
    if "selectedYears fs' = [] \<or> selectedCities fs' = [] \<or> selectedNewConstruction fs' = []
        \<or> selectedCityLimits fs' = []" for fs'
    using that by (auto simp: filteredData_def matches_def arrayIncludes_def filter_empty_conv)
  have cleared: "filteredData (clearFilter k fs) rawData = []"
    by (rule empty) (cases k; simp add: clearFilter_def setSelected_def)
  have same: "filteredData fs rawData =
     filter (\<lambda>d. yearValue d \<in> set (selectedYears fs)
                \<and> city d \<in> set (selectedCities fs)
                \<and> newConstruction d \<in> set (selectedNewConstruction fs)
                \<and> insideCityLimits d \<in> set (selectedCityLimits fs)) rawData"
    unfolding filteredData_def
    by (rule filter_cong) (simp_all add: matches_def arrayIncludes_def)
  have sub: "subseq (filteredData fs rawData) rawData"
    by (simp add: filteredData_def)
  show ?thesis
    using empty [of fs] cleared same sub by blast
qed

theorem filteredData_conjunctive_witness:
  "filteredData (initFilters [city2020]) [city2020] = [city2020]
   \<and> filteredData ((initFilters [city2020])\<lparr>selectedCityLimits := []\<rparr>) [city2020] = []"
proof -
  have shown: "filteredData (initFilters [city2020]) [city2020] = [city2020]"
    by (simp add: filteredData_def matches_def initFilters_def distinctValues_def
        arrayIncludes_def city2020_def sampleListing_fields)
  have "selectedCityLimits ((initFilters [city2020])\<lparr>selectedCityLimits := []\<rparr>) = []"
    by simp
  then show ?thesis
    using shown
      filteredData_conjunctive [of "(initFilters [city2020])\<lparr>selectedCityLimits := []\<rparr>"
        "[city2020]" SelectedYears]
    by blast
qed

text \<open>
  Unchecking a box whose value does not look like a number removes exactly the records
  with that city.
\<close>

lemma uncheck_text_value:
  assumes "sniffed c = JStr c"
  shows "filteredData (handleFilterChange \<lparr>cbValue = c, cbChecked = False\<rparr> SelectedCities fs) rawData
     = filter (\<lambda>d. city d \<noteq> JStr c) (filteredData fs rawData)"
  using assms
  by (auto simp: filteredData_def handleFilterChange_def getSelected_def setSelected_def
      matches_def arrayIncludes_def strictEquals_def intro: filter_cong)

lemma sniffed_Conway: "sniffed ''Conway'' = JStr ''Conway''"
  by (simp add: sniffed_def parse_defs)

text \<open>
  C2, at a city whose name looks like a number. Every box starts checked. Unchecking the
  box of the city \<open>2020\<close> removes the number \<open>2020\<close> from the selection, which holds the
  text \<open>2020\<close>: the record stays visible. After \<open>Clear All\<close>, checking the box adds the
  number \<open>2020\<close>: the record stays hidden.
\<close>

theorem city_named_like_year:
  "filteredData (initFilters [city2020]) [city2020] = [city2020]
   \<and> filteredData (handleFilterChange \<lparr>cbValue = ''2020'', cbChecked = False\<rparr> SelectedCities
         (initFilters [city2020])) [city2020] = [city2020]
   \<and> selectedCities (handleFilterChange \<lparr>cbValue = ''2020'', cbChecked = True\<rparr> SelectedCities
         (clearFilter SelectedCities (initFilters [city2020]))) = [JNum (Fin 2020)]
   \<and> filteredData (handleFilterChange \<lparr>cbValue = ''2020'', cbChecked = True\<rparr> SelectedCities
         (clearFilter SelectedCities (initFilters [city2020]))) [city2020] = []"
  by (simp add: filteredData_def matches_def initFilters_def distinctValues_def yearValue_def
      handleFilterChange_def sniffed_2020 getSelected_def setSelected_def arrayIncludes_def
      strictEquals_def clearFilter_def city2020_def sampleListing_fields orElse_def
      truthyPrim_def)

section \<open>Facts: duplicates\<close>

lemma keepFirst_subset: "set (keepFirst key xs) \<subseteq> set xs"
  by (induction key xs rule: keepFirst.induct) auto

lemma keepFirst_keys: "key ` set (keepFirst key xs) = key ` set xs"
  by (induction key xs rule: keepFirst.induct) force+

lemma keepFirst_distinct: "distinct (map key (keepFirst key xs))"
proof (induction key xs rule: keepFirst.induct)
  case (1 key)
  then show ?case by simp
next
  case (2 key x xs)
  have "key x \<notin> key ` set (keepFirst key (filter (\<lambda>y. key y \<noteq> key x) xs))"
    using keepFirst_subset [of key "filter (\<lambda>y. key y \<noteq> key x) xs"] by auto
  with 2 show ?case by simp
qed

lemma keepFirst_id: "distinct (map key ys) \<Longrightarrow> keepFirst key ys = ys"
proof (induction ys)
  case Nil
  then show ?case by simp
next
  case (Cons y ys)
  then have "key y \<notin> key ` set ys" by simp
  then have "\<forall>z\<in>set ys. key z \<noteq> key y" by (metis imageI)
  then have "filter (\<lambda>z. key z \<noteq> key y) ys = ys"
    by (simp add: filter_id_conv)
  with Cons show ?case by simp
qed

lemma keepFirst_subseq: "subseq (keepFirst key xs) xs"
proof (induction key xs rule: keepFirst.induct)
  case (1 key)
  then show ?case by simp
next
  case (2 key x xs)
  have "subseq (filter (\<lambda>y. key y \<noteq> key x) xs) xs" by simp
  with 2 have "subseq (keepFirst key (filter (\<lambda>y. key y \<noteq> key x) xs)) xs"
    using subseq_order.trans by blast
  then show ?case by simp
qed

lemma keepFirst_snoc:
  "keepFirst key (ys @ [x]) =
     (if key x \<in> key ` set ys then keepFirst key ys else keepFirst key ys @ [x])"
proof (induction key ys rule: keepFirst.induct)
  case (1 key)
  then show ?case by simp
next
  case (2 key y ys)
  let ?P = "\<lambda>z. key z \<noteq> key y"
  show ?case
  proof (cases "key x = key y")
    case True
    then show ?thesis by simp
  next
    case False
    have "key x \<in> key ` set (filter ?P ys) \<longleftrightarrow> key x \<in> key ` set ys"
      using False by auto
    with False "2.IH" show ?thesis by simp
  qed
qed

lemma dedupFrom_keepFirst:
  "\<forall>d\<in>set xs. \<exists>a. address d = JStr a \<Longrightarrow>
   dedupFrom h seen xs =
     Inr (keepFirst (fingerprint h) (filter (\<lambda>d. fingerprint h d \<notin> Inr ` set seen) xs))"
proof (induction xs arbitrary: seen)
  case Nil
  then show ?case by simp
next
  case (Cons d ds)
  then obtain a where a: "address d = JStr a" by auto
  define k where "k = numberToString h (Fin (of_int (date d))) @ ''-''
                     @ toLowerCase (trim a) @ ''-'' @ primText h (price d)"
  have fp: "fingerprint h d = Inr k" by (simp add: fingerprint_def a k_def)
  have IH: "dedupFrom h s ds =
     Inr (keepFirst (fingerprint h) (filter (\<lambda>d. fingerprint h d \<notin> Inr ` set s) ds))" for s
    using Cons by simp
  show ?case
  proof (cases "k \<in> set seen")
    case True
    then show ?thesis using fp IH [of seen] by auto
  next
    case False
    have "filter (\<lambda>y. fingerprint h y \<noteq> Inr k) (filter (\<lambda>d. fingerprint h d \<notin> Inr ` set seen) ds)
          = filter (\<lambda>d. fingerprint h d \<notin> Inr ` set (k # seen)) ds"
      by (auto intro: filter_cong)
    with False show ?thesis using fp IH [of "k # seen"] by auto
  qed
qed

text \<open>
  C3. On records whose address is text, the duplicate filter returns the records in their
  input order with, for each fingerprint, the first record that has it and none of the
  later ones (scanning in input order, a record is kept exactly when no earlier record has
  its fingerprint); the fingerprint is the time value of the date, the address trimmed and
  in lower case, and the price, joined by \<open>-\<close> in that order. Applied to its own output
  the filter returns it unchanged.
\<close>

theorem dedup_keeps_first:
  assumes "\<forall>d\<in>set xs. \<exists>a. address d = JStr a"
  shows "dedup h xs = Inr (keepFirst (fingerprint h) xs)
         \<and> subseq (keepFirst (fingerprint h) xs) xs
         \<and> distinct (map (fingerprint h) (keepFirst (fingerprint h) xs))
         \<and> fingerprint h ` set (keepFirst (fingerprint h) xs) = fingerprint h ` set xs
         \<and> dedup h (keepFirst (fingerprint h) xs) = Inr (keepFirst (fingerprint h) xs)
         \<and> (\<forall>ys d. keepFirst (fingerprint h) (ys @ [d]) =
               (if fingerprint h d \<in> fingerprint h ` set ys then keepFirst (fingerprint h) ys
                else keepFirst (fingerprint h) ys @ [d]))
         \<and> (\<forall>d\<in>set xs. \<forall>a. address d = JStr a \<longrightarrow>
               fingerprint h d = Inr (numberToString h (Fin (of_int (date d))) @ ''-''
                     @ toLowerCase (trim a) @ ''-'' @ primText h (price d)))"
proof -
  let ?ys = "keepFirst (fingerprint h) xs"
  have first: "dedup h xs = Inr ?ys"
    using dedupFrom_keepFirst [OF assms, of h "[]"] by (simp add: dedup_def)
  have "\<forall>d\<in>set ?ys. \<exists>a. address d = JStr a"
    using assms keepFirst_subset [of "fingerprint h" xs] by blast
  then have "dedup h ?ys = Inr (keepFirst (fingerprint h) ?ys)"
    using dedupFrom_keepFirst [of ?ys h "[]"] by (simp add: dedup_def)
  then have again: "dedup h ?ys = Inr ?ys"
    by (simp add: keepFirst_id keepFirst_distinct)
  show ?thesis
  proof (intro conjI)
    show "dedup h xs = Inr ?ys" by (fact first)
    show "subseq ?ys xs" by (rule keepFirst_subseq)
    show "distinct (map (fingerprint h) ?ys)" by (rule keepFirst_distinct)
    show "fingerprint h ` set ?ys = fingerprint h ` set xs" by (rule keepFirst_keys)
    show "dedup h ?ys = Inr ?ys" by (fact again)
    show "\<forall>ys d. keepFirst (fingerprint h) (ys @ [d]) =
               (if fingerprint h d \<in> fingerprint h ` set ys then keepFirst (fingerprint h) ys
                else keepFirst (fingerprint h) ys @ [d])"
      by (simp add: keepFirst_snoc)
    show "\<forall>d\<in>set xs. \<forall>a. address d = JStr a \<longrightarrow>
               fingerprint h d = Inr (numberToString h (Fin (of_int (date d))) @ ''-''
                     @ toLowerCase (trim a) @ ''-'' @ primText h (price d))"
      by (simp add: fingerprint_def)
  qed
qed

lemma timeText_2022: "numberToString h (Fin (of_int 1651363200000)) = ''1651363200000''"
  by (simp add: numberToString_def isInteger_def intText_def natText.simps digitChar_def)

lemma sample_fingerprints:
  "fingerprint utcHost (sampleListing ''1 Main St'' ''Conway'' (JStr ''$200,000'') 1500)
     = Inr ''1651363200000-1 main st-200000''
   \<and> fingerprint utcHost (sampleListing '' 1 MAIN st '' ''Conway'' (JNum (Fin 200000)) 1800)
     = Inr ''1651363200000-1 main st-200000''
   \<and> fingerprint utcHost (sampleListing ''2 Oak Ave'' ''Conway'' (JNum (Fin 200000)) 1500)
     = Inr ''1651363200000-2 oak ave-200000''"
  by (simp add: fingerprint_def sampleListing_fields orElse_def truthyPrim_def timeText_2022
      dimPricePrim_def primToNumber_def parse_defs primText_def numberToString_def
      isInteger_def intText_def natText.simps digitChar_def toLowerCase_def lowerChar_def
      trim_def)

theorem dedup_keeps_first_witness:
  "dedup utcHost
     [sampleListing ''1 Main St'' ''Conway'' (JStr ''$200,000'') 1500,
      sampleListing '' 1 MAIN st '' ''Conway'' (JNum (Fin 200000)) 1800,
      sampleListing ''2 Oak Ave'' ''Conway'' (JNum (Fin 200000)) 1500]
   = Inr [sampleListing ''1 Main St'' ''Conway'' (JStr ''$200,000'') 1500,
          sampleListing ''2 Oak Ave'' ''Conway'' (JNum (Fin 200000)) 1500]
   \<and> dedup utcHost
     [sampleListing ''1 Main St'' ''Conway'' (JStr ''$200,000'') 1500,
      sampleListing ''2 Oak Ave'' ''Conway'' (JNum (Fin 200000)) 1500]
   = Inr [sampleListing ''1 Main St'' ''Conway'' (JStr ''$200,000'') 1500,
          sampleListing ''2 Oak Ave'' ''Conway'' (JNum (Fin 200000)) 1500]"
proof -
  let ?a = "sampleListing ''1 Main St'' ''Conway'' (JStr ''$200,000'') 1500"
  let ?b = "sampleListing '' 1 MAIN st '' ''Conway'' (JNum (Fin 200000)) 1800"
  let ?c = "sampleListing ''2 Oak Ave'' ''Conway'' (JNum (Fin 200000)) 1500"
  have strs: "\<forall>d\<in>set [?a, ?b, ?c]. \<exists>a. address d = JStr a"
    by (simp add: sampleListing_fields orElse_def truthyPrim_def)
  have firsts: "keepFirst (fingerprint utcHost) [?a, ?b, ?c] = [?a, ?c]"
    by (simp add: sample_fingerprints)
  have "dedup utcHost [?a, ?b, ?c] = Inr (keepFirst (fingerprint utcHost) [?a, ?b, ?c])
        \<and> dedup utcHost (keepFirst (fingerprint utcHost) [?a, ?b, ?c])
            = Inr (keepFirst (fingerprint utcHost) [?a, ?b, ?c])"
    using dedup_keeps_first [OF strs, of utcHost] by blast
  then show ?thesis
    unfolding firsts by blast
qed

section \<open>Facts: upload\<close>

lemma uploadFrom_foldl: "uploadFrom i cleanRecs st = foldl batchSet st (drop i cleanRecs)"
proof (induction i cleanRecs st rule: uploadFrom.induct)
  case (1 i cleanRecs st)
  show ?case
  proof (cases "i < length cleanRecs")
    case True
    have "drop i cleanRecs = take batchSize (drop i cleanRecs) @ drop (i + batchSize) cleanRecs"
      by (metis append_take_drop_id drop_drop add.commute)
    then have "foldl batchSet st (drop i cleanRecs)
        = foldl batchSet (commitBatch st (take batchSize (drop i cleanRecs)))
            (drop (i + batchSize) cleanRecs)"
      by (metis commitBatch_def foldl_append)
    with True 1 show ?thesis
      by (simp add: uploadFrom.simps [of i])
  next
    case False
    then show ?thesis by (simp add: uploadFrom.simps [of i])
  qed
qed

lemma upload_writes:
  "uploadDataToFirestore h rawData st =
     (case cleanRecords h rawData of Inl e \<Rightarrow> Inl e | Inr ds \<Rightarrow> Inr (foldl batchSet st ds))"
  by (simp add: uploadDataToFirestore_def uploadFrom_foldl split: sum.splits)

lemma foldl_batchSet_snoc:
  "foldl batchSet st (xs @ [x]) k =
     (if k = safeKey (uniqueKey x) then Some x else foldl batchSet st xs k)"
  by (simp add: batchSet_def)

lemma foldl_batchSet_lookup:
  "foldl batchSet st ds k = Some d \<Longrightarrow>
     st k = Some d \<or> (d \<in> set ds \<and> k = safeKey (uniqueKey d))"
proof (induction ds rule: rev_induct)
  case Nil
  then show ?case by simp
next
  case (snoc x xs)
  show ?case
  proof (cases "k = safeKey (uniqueKey x)")
    case True
    with snoc.prems have "d = x" by (simp add: foldl_batchSet_snoc del: foldl_append)
    with True show ?thesis by simp
  next
    case False
    with snoc.prems have "foldl batchSet st xs k = Some d"
      by (simp add: foldl_batchSet_snoc del: foldl_append)
    with snoc.IH show ?thesis by auto
  qed
qed

lemma foldl_batchSet_written:
  "d \<in> set ds \<Longrightarrow> \<exists>d'\<in>set ds. foldl batchSet st ds (safeKey (uniqueKey d)) = Some d'"
proof (induction ds rule: rev_induct)
  case Nil
  then show ?case by simp
next
  case (snoc x xs)
  show ?case
  proof (cases "safeKey (uniqueKey d) = safeKey (uniqueKey x)")
    case True
    then have "foldl batchSet st (xs @ [x]) (safeKey (uniqueKey d)) = Some x"
      by (simp add: foldl_batchSet_snoc del: foldl_append)
    then show ?thesis by auto
  next
    case False
    then have "d \<in> set xs" using snoc.prems by auto
    then obtain d' where d': "d' \<in> set xs"
      "foldl batchSet st xs (safeKey (uniqueKey d)) = Some d'"
      using snoc.IH by blast
    from False d'(2) have "foldl batchSet st (xs @ [x]) (safeKey (uniqueKey d)) = Some d'"
      by (simp add: foldl_batchSet_snoc del: foldl_append)
    with d'(1) show ?thesis by auto
  qed
qed

lemma safeKey_no_slash: "CHR ''/'' \<notin> set (safeKey k)"
  by (auto simp: safeKey_def)

lemma cleanRecord_Some:
  "cleanRecord h r = Inr (Some d) \<Longrightarrow>
     \<exists>t a. parseDate h (r ''Closed Date'') = Some t \<and> addressKey (r ''Address'') = Inr a
       \<and> date d = t \<and> year d = localYear h t
       \<and> price d = jsonNumber (toNumber (dimPrice (r ''Price'')))
       \<and> uniqueKey d = numberToString h (Fin (of_int t)) @ ''-'' @ a @ ''-''
             @ toText h (dimPrice (r ''Price''))"
  by (auto simp: cleanRecord_def Let_def split: option.splits sum.splits)

lemma cleanRecords_pair:
  "cleanRecord h r1 = Inr (Some d1) \<Longrightarrow> cleanRecord h r2 = Inr (Some d2) \<Longrightarrow>
     cleanRecords h [r1, r2] = Inr (filter kept [d1, d2])"
  by (simp add: cleanRecords_def List.map_filter_def)

lemma isoDate_sample: "isoDate ''2022-05-01'' = Some 1651363200000"
  by code_simp

lemma dimPrice_sample: "dimPrice (Prim (JStr ''$200,000'')) = Prim (JNum (Fin 200000))"
  by (simp add: dimPrice_def parse_defs toNumber_def primToNumber_def)

lemmas sample_eval = cleanRecord_def sampleSheetRow_def dimPrice_sample parseDate_def utcHost_def
  isoDate_sample utcYear_2022 addressKey_def truthy_def truthyPrim_def truthyNum_def
  orElseCell_def toText_def primText_def trim_def toLowerCase_def lowerChar_def
  toNumber_def primToNumber_def jsonNumber_def kept_def gt0_def numberToString_def
  isInteger_def intText_def natText.simps digitChar_def isWhiteSpace_def

lemma sample_clean:
  "\<exists>d. cleanRecord utcHost
          (sampleSheetRow (Prim (JStr ''1 Main St'')) (Prim (JStr ''$200,000'')) (Prim (JNum (Fin sq))))
        = Inr (Some d)
      \<and> kept d \<and> uniqueKey d = ''1651363200000-1 main st-200000''
      \<and> sqFt d = JNum (Fin sq) \<and> address d = JStr ''1 Main St''"
  by (simp add: sample_eval)

subsection \<open>Acceptance\<close>

lemma dimPrice_not_text: "dimPrice v \<noteq> Prim (JStr s)"
  by (auto simp: dimPrice_def Let_def split: jsval.splits prim.splits)

lemma upload_acceptance:
  "cleanRecord h r = Inr x \<Longrightarrow>
     (\<exists>d. x = Some d \<and> kept d) \<longleftrightarrow>
       (\<exists>t. parseDate h (r ''Closed Date'') = Some t \<and> 2000 < localYear h t)
       \<and> gt0 (primToNumber (jsonNumber (toNumber (dimPrice (r ''Price'')))))"
  by (auto simp: cleanRecord_def Let_def kept_def split: option.splits sum.splits)

lemma unparsable_price_rejected:
  assumes "r ''Price'' = Prim (JStr s)" and "parseFloat (stripCurrency s) = NaN"
    and "cleanRecord h r = Inr x"
  shows "\<not> (\<exists>d. x = Some d \<and> kept d)"
proof -
  have "dimPrice (r ''Price'') = Prim (JNum (Fin 0))"
    using assms(1,2) by (simp add: dimPrice_def toNumber_def primToNumber_def)
  then have "\<not> gt0 (primToNumber (jsonNumber (toNumber (dimPrice (r ''Price'')))))"
    by (simp add: toNumber_def primToNumber_def jsonNumber_def gt0_def)
  then show ?thesis
    using upload_acceptance [OF assms(3)] by blast
qed

lemma upload_returns:
  "(\<exists>x. cleanRecord h r = Inr x) \<longleftrightarrow>
     parseDate h (r ''Closed Date'') = None \<or> \<not> truthy (r ''Address'')
     \<or> (\<exists>s. r ''Address'' = Prim (JStr s))"
  by (auto simp: cleanRecord_def Let_def addressKey_def
      split: option.splits sum.splits jsval.splits prim.splits)

lemma dashboard_acceptance:
  "d \<in> set (normalize h (fetchRows h docs)) \<longleftrightarrow>
     (\<exists>doc\<in>set docs. \<exists>t. toDateObj h (docDate doc) = Some t \<and> 2000 < localYear h t
        \<and> gt0 (primToNumber (dimPricePrim (docFields doc ''price'')))
        \<and> d = toListing h \<lparr>rowDate = t, rowFields = docFields doc\<rparr>)"
proof -
  have ret: "retained h (toListing h r) \<longleftrightarrow>
      gt0 (primToNumber (dimPricePrim (rowFields r ''price''))) \<and> 2000 < localYear h (rowDate r)"
    for r
    by (auto simp: retained_def toListing_def gt0_def)
  have rows: "r \<in> set (fetchRows h docs) \<longleftrightarrow>
      (\<exists>doc\<in>set docs. \<exists>t. toDateObj h (docDate doc) = Some t
         \<and> r = \<lparr>rowDate = t, rowFields = docFields doc\<rparr>)" for r
    by (induction docs) (auto simp: fetchRows_def split: option.splits)
  have "d \<in> set (normalize h (fetchRows h docs)) \<longleftrightarrow>
      (\<exists>r. r \<in> set (fetchRows h docs) \<and> d = toListing h r \<and> retained h (toListing h r))"
    unfolding normalize_def by auto
  also have "\<dots> \<longleftrightarrow>
      (\<exists>doc\<in>set docs. \<exists>t. toDateObj h (docDate doc) = Some t \<and> 2000 < localYear h t
        \<and> gt0 (primToNumber (dimPricePrim (docFields doc ''price'')))
        \<and> d = toListing h \<lparr>rowDate = t, rowFields = docFields doc\<rparr>)"
    unfolding rows ret by force
  finally show ?thesis .
qed

text \<open>
  C1, on the upload path, at a row whose address cell holds a number. The row's date is
  valid and of 2022 and its price is 200000, yet the key computation calls \<open>trim\<close> on
  the number and throws: neither this row nor the valid row before it is retained or
  written. With the same address as text the row is retained.
\<close>

theorem numeric_address_aborts_upload:
  "parseDate utcHost
      (sampleSheetRow (Prim (JNum (Fin 1204))) (Prim (JStr ''$200,000'')) (Prim (JNum (Fin 1500)))
         ''Closed Date'') = Some 1651363200000
   \<and> localYear utcHost 1651363200000 = 2022
   \<and> jsonNumber (toNumber (dimPrice
        (sampleSheetRow (Prim (JNum (Fin 1204))) (Prim (JStr ''$200,000'')) (Prim (JNum (Fin 1500)))
           ''Price''))) = JNum (Fin 200000)
   \<and> cleanRecord utcHost
        (sampleSheetRow (Prim (JNum (Fin 1204))) (Prim (JStr ''$200,000'')) (Prim (JNum (Fin 1500))))
      = Inl TypeError
   \<and> uploadDataToFirestore utcHost
        [sampleSheetRow (Prim (JStr ''1 Main St'')) (Prim (JStr ''$200,000'')) (Prim (JNum (Fin 1500))),
         sampleSheetRow (Prim (JNum (Fin 1204))) (Prim (JStr ''$200,000'')) (Prim (JNum (Fin 1500)))]
        Map.empty = Inl TypeError
   \<and> (\<exists>d. cleanRecords utcHost
        [sampleSheetRow (Prim (JStr ''1204'')) (Prim (JStr ''$200,000'')) (Prim (JNum (Fin 1500)))]
      = Inr [d])"
proof -
  let ?bad = "sampleSheetRow (Prim (JNum (Fin 1204))) (Prim (JStr ''$200,000''))
                (Prim (JNum (Fin 1500)))"
  let ?good = "sampleSheetRow (Prim (JStr ''1 Main St'')) (Prim (JStr ''$200,000''))
                (Prim (JNum (Fin 1500)))"
  let ?text = "sampleSheetRow (Prim (JStr ''1204'')) (Prim (JStr ''$200,000''))
                (Prim (JNum (Fin 1500)))"
  have bad: "cleanRecord utcHost ?bad = Inl TypeError"
    by (simp add: sample_eval)
  obtain d where good: "cleanRecord utcHost ?good = Inr (Some d)"
    using sample_clean [of 1500] by blast
  have "mapRows utcHost [?good, ?bad] = Inl TypeError"
    by (simp add: bad good)
  then have abort: "uploadDataToFirestore utcHost [?good, ?bad] Map.empty = Inl TypeError"
    by (simp add: uploadDataToFirestore_def cleanRecords_def)
  have "\<exists>d. cleanRecord utcHost ?text = Inr (Some d) \<and> kept d"
    by (simp add: sample_eval)
  then have retained: "\<exists>d. cleanRecords utcHost [?text] = Inr [d]"
    by (auto simp: cleanRecords_def List.map_filter_def)
  have "parseDate utcHost (?bad ''Closed Date'') = Some 1651363200000"
    by (simp add: sample_eval)
  moreover have "localYear utcHost 1651363200000 = 2022"
    by (simp add: utcHost_def utcYear_2022)
  moreover have "jsonNumber (toNumber (dimPrice (?bad ''Price''))) = JNum (Fin 200000)"
    by (simp add: sample_eval)
  ultimately show ?thesis
    using bad abort retained by simp
qed

subsection \<open>Storage\<close>

text \<open>
  Two rows of an upload with the same \<open>Closed Date\<close>, \<open>Address\<close> and \<open>Price\<close> cells from
  which the normaliser builds records are written under the same identifier: after the
  upload that identifier holds the record of the later row, whatever its other fields
  are, and nothing else has changed.
\<close>

lemma same_sale_overwrites:
  assumes "r1 ''Closed Date'' = r2 ''Closed Date''"
    and "r1 ''Address'' = r2 ''Address''"
    and "r1 ''Price'' = r2 ''Price''"
    and "cleanRecord h r1 = Inr (Some d1)"
    and "cleanRecord h r2 = Inr (Some d2)"
    and "kept d1"
  shows "kept d2
     \<and> uniqueKey d1 = uniqueKey d2
     \<and> cleanRecords h [r1, r2] = Inr [d1, d2]
     \<and> uploadDataToFirestore h [r1, r2] st = Inr (st(safeKey (uniqueKey d2) \<mapsto> d2))
     \<and> uploadDataToFirestore h [r1, r2] Map.empty = Inr [safeKey (uniqueKey d2) \<mapsto> d2]"
proof -
  from cleanRecord_Some [OF assms(4)] cleanRecord_Some [OF assms(5)] assms(1-3)
  have same: "uniqueKey d1 = uniqueKey d2" "price d1 = price d2" "year d1 = year d2"
    by auto
  with assms(6) have k2: "kept d2" by (simp add: kept_def)
  have recs: "cleanRecords h [r1, r2] = Inr [d1, d2]"
    using cleanRecords_pair [OF assms(4) assms(5)] assms(6) k2 by simp
  have "uploadDataToFirestore h [r1, r2] s = Inr (s(safeKey (uniqueKey d2) \<mapsto> d2))" for s
    by (simp add: upload_writes recs batchSet_def same(1))
  then show ?thesis using k2 same(1) recs by simp
qed

lemma same_sale_overwrites_example:
  "\<exists>d. uploadDataToFirestore utcHost
      [sampleSheetRow (Prim (JStr ''1 Main St'')) (Prim (JStr ''$200,000'')) (Prim (JNum (Fin 1500))),
       sampleSheetRow (Prim (JStr ''1 Main St'')) (Prim (JStr ''$200,000'')) (Prim (JNum (Fin 1800)))]
      Map.empty = Inr [''1651363200000-1 main st-200000'' \<mapsto> d]
    \<and> sqFt d = JNum (Fin 1800)"
proof -
  let ?r1 = "sampleSheetRow (Prim (JStr ''1 Main St'')) (Prim (JStr ''$200,000''))
               (Prim (JNum (Fin 1500)))"
  let ?r2 = "sampleSheetRow (Prim (JStr ''1 Main St'')) (Prim (JStr ''$200,000''))
               (Prim (JNum (Fin 1800)))"
  obtain d1 where d1: "cleanRecord utcHost ?r1 = Inr (Some d1)" "kept d1"
    using sample_clean [of 1500] by blast
  obtain d2 where d2: "cleanRecord utcHost ?r2 = Inr (Some d2)"
    "uniqueKey d2 = ''1651363200000-1 main st-200000''" "sqFt d2 = JNum (Fin 1800)"
    using sample_clean [of 1800] by blast
  have cells: "?r1 ''Closed Date'' = ?r2 ''Closed Date''" "?r1 ''Address'' = ?r2 ''Address''"
    "?r1 ''Price'' = ?r2 ''Price''"
    by (simp_all add: sampleSheetRow_def)
  have "safeKey (uniqueKey d2) = ''1651363200000-1 main st-200000''"
    by (simp add: d2(2) safeKey_def)
  then show ?thesis
    using same_sale_overwrites [OF cells d1(1) d2(1) d1(2), of Map.empty] d2(3) by auto
qed

lemma sample_clean_1204:
  "\<exists>d. cleanRecord utcHost
          (sampleSheetRow (Prim (JStr ''1204'')) (Prim (JStr ''$200,000'')) (Prim (JNum (Fin sq))))
        = Inr (Some d)
      \<and> kept d \<and> uniqueKey d = ''1651363200000-1204-200000'' \<and> sqFt d = JNum (Fin sq)"
  by (simp add: sample_eval)

text \<open>
  C5, at two rows whose address cell holds the same number. The rows have the same date
  (valid, of 2022), the same address and the same price (200000) and differ in their
  square footage, yet no record is stored: the key computation calls \<open>trim\<close> on the
  number and throws, whatever the store held before. With the same address as text the
  two rows leave one record, that of the later row.
\<close>

theorem numeric_address_pair_stores_nothing:
  "sampleSheetRow (Prim (JNum (Fin 1204))) (Prim (JStr ''$200,000'')) (Prim (JNum (Fin 1500)))
      ''Closed Date''
    = sampleSheetRow (Prim (JNum (Fin 1204))) (Prim (JStr ''$200,000'')) (Prim (JNum (Fin 1800)))
      ''Closed Date''
   \<and> sampleSheetRow (Prim (JNum (Fin 1204))) (Prim (JStr ''$200,000'')) (Prim (JNum (Fin 1500)))
      ''Address''
    = sampleSheetRow (Prim (JNum (Fin 1204))) (Prim (JStr ''$200,000'')) (Prim (JNum (Fin 1800)))
      ''Address''
   \<and> sampleSheetRow (Prim (JNum (Fin 1204))) (Prim (JStr ''$200,000'')) (Prim (JNum (Fin 1500)))
      ''Price''
    = sampleSheetRow (Prim (JNum (Fin 1204))) (Prim (JStr ''$200,000'')) (Prim (JNum (Fin 1800)))
      ''Price''
   \<and> sampleSheetRow (Prim (JNum (Fin 1204))) (Prim (JStr ''$200,000'')) (Prim (JNum (Fin 1500)))
      ''Apx SQFT''
    \<noteq> sampleSheetRow (Prim (JNum (Fin 1204))) (Prim (JStr ''$200,000'')) (Prim (JNum (Fin 1800)))
      ''Apx SQFT''
   \<and> parseDate utcHost
      (sampleSheetRow (Prim (JNum (Fin 1204))) (Prim (JStr ''$200,000'')) (Prim (JNum (Fin 1800)))
         ''Closed Date'') = Some 1651363200000
   \<and> localYear utcHost 1651363200000 = 2022
   \<and> jsonNumber (toNumber (dimPrice
        (sampleSheetRow (Prim (JNum (Fin 1204))) (Prim (JStr ''$200,000'')) (Prim (JNum (Fin 1800)))
           ''Price''))) = JNum (Fin 200000)
   \<and> (\<forall>st. uploadDataToFirestore utcHost
        [sampleSheetRow (Prim (JNum (Fin 1204))) (Prim (JStr ''$200,000'')) (Prim (JNum (Fin 1500))),
         sampleSheetRow (Prim (JNum (Fin 1204))) (Prim (JStr ''$200,000'')) (Prim (JNum (Fin 1800)))]
        st = Inl TypeError)
   \<and> (\<exists>d. uploadDataToFirestore utcHost
        [sampleSheetRow (Prim (JStr ''1204'')) (Prim (JStr ''$200,000'')) (Prim (JNum (Fin 1500))),
         sampleSheetRow (Prim (JStr ''1204'')) (Prim (JStr ''$200,000'')) (Prim (JNum (Fin 1800)))]
        Map.empty = Inr [''1651363200000-1204-200000'' \<mapsto> d]
      \<and> sqFt d = JNum (Fin 1800))"
proof -
  let ?n1 = "sampleSheetRow (Prim (JNum (Fin 1204))) (Prim (JStr ''$200,000''))
               (Prim (JNum (Fin 1500)))"
  let ?n2 = "sampleSheetRow (Prim (JNum (Fin 1204))) (Prim (JStr ''$200,000''))
               (Prim (JNum (Fin 1800)))"
  let ?t1 = "sampleSheetRow (Prim (JStr ''1204'')) (Prim (JStr ''$200,000''))
               (Prim (JNum (Fin 1500)))"
  let ?t2 = "sampleSheetRow (Prim (JStr ''1204'')) (Prim (JStr ''$200,000''))
               (Prim (JNum (Fin 1800)))"
  have cells: "?n1 ''Closed Date'' = ?n2 ''Closed Date''" "?n1 ''Address'' = ?n2 ''Address''"
    "?n1 ''Price'' = ?n2 ''Price''" "?n1 ''Apx SQFT'' \<noteq> ?n2 ''Apx SQFT''"
    by (simp_all add: sampleSheetRow_def)
  have date: "parseDate utcHost (?n2 ''Closed Date'') = Some 1651363200000"
    by (simp add: sample_eval)
  have year: "localYear utcHost 1651363200000 = 2022"
    by (simp add: utcHost_def utcYear_2022)
  have price: "jsonNumber (toNumber (dimPrice (?n2 ''Price''))) = JNum (Fin 200000)"
    by (simp add: sample_eval)
  have "cleanRecord utcHost ?n1 = Inl TypeError"
    by (simp add: sample_eval)
  then have "mapRows utcHost [?n1, ?n2] = Inl TypeError"
    by simp
  then have abort: "\<forall>st. uploadDataToFirestore utcHost [?n1, ?n2] st = Inl TypeError"
    by (simp add: uploadDataToFirestore_def cleanRecords_def)
  obtain d1 where d1: "cleanRecord utcHost ?t1 = Inr (Some d1)" "kept d1"
    using sample_clean_1204 [of 1500] by blast
  obtain d2 where d2: "cleanRecord utcHost ?t2 = Inr (Some d2)"
    "uniqueKey d2 = ''1651363200000-1204-200000''" "sqFt d2 = JNum (Fin 1800)"
    using sample_clean_1204 [of 1800] by blast
  have same: "?t1 ''Closed Date'' = ?t2 ''Closed Date''" "?t1 ''Address'' = ?t2 ''Address''"
    "?t1 ''Price'' = ?t2 ''Price''"
    by (simp_all add: sampleSheetRow_def)
  have "safeKey (uniqueKey d2) = ''1651363200000-1204-200000''"
    by (simp add: d2(2) safeKey_def)
  then have "uploadDataToFirestore utcHost [?t1, ?t2] Map.empty
      = Inr [''1651363200000-1204-200000'' \<mapsto> d2]"
    using same_sale_overwrites [OF same d1(1) d2(1) d1(2), of Map.empty] by simp
  then have written: "\<exists>d. uploadDataToFirestore utcHost [?t1, ?t2] Map.empty
      = Inr [''1651363200000-1204-200000'' \<mapsto> d] \<and> sqFt d = JNum (Fin 1800)"
    using d2(3) by blast
  show ?thesis
  proof (intro conjI)
    show "\<exists>d. uploadDataToFirestore utcHost [?t1, ?t2] Map.empty
      = Inr [''1651363200000-1204-200000'' \<mapsto> d] \<and> sqFt d = JNum (Fin 1800)"
      by (fact written)
  qed (fact cells date year price abort)+
qed

text \<open>
  C9. The key of an uploaded row is built from its \<open>Address\<close> cell alone, the stored
  address from the first of \<open>Address\<close>, \<open>Street Name\<close> and \<open>Street Address\<close> that is
  truthy. So two rows with no \<open>Address\<close> cell, the same date and the same coerced price
  (the value the key is built from) get the same key, with nothing between its two
  dashes, and when the normaliser keeps them the upload leaves one document, that of the
  later row, whatever their stored addresses are.
\<close>

theorem missing_address_collapses:
  assumes "r1 ''Address'' = Prim JUndefined"
    and "r2 ''Address'' = Prim JUndefined"
    and "parseDate h (r1 ''Closed Date'') = Some t"
    and "parseDate h (r2 ''Closed Date'') = Some t"
    and "dimPrice (r1 ''Price'') = dimPrice (r2 ''Price'')"
  shows "\<exists>d1 d2. cleanRecord h r1 = Inr (Some d1) \<and> cleanRecord h r2 = Inr (Some d2)
     \<and> uniqueKey d1 = numberToString h (Fin (of_int t)) @ ''--''
          @ toText h (dimPrice (r1 ''Price''))
     \<and> uniqueKey d2 = uniqueKey d1
     \<and> address d1 = JStr (trim (toText h (orElseCell (r1 ''Street Name'')
          (orElseCell (r1 ''Street Address'') (Prim (JStr ''''))))))
     \<and> address d2 = JStr (trim (toText h (orElseCell (r2 ''Street Name'')
          (orElseCell (r2 ''Street Address'') (Prim (JStr ''''))))))
     \<and> (kept d1 \<longleftrightarrow> kept d2)
     \<and> (kept d1 \<longrightarrow>
          uploadDataToFirestore h [r1, r2] st = Inr (st(safeKey (uniqueKey d2) \<mapsto> d2)))"
proof -
  have key: "addressKey (Prim JUndefined) = Inr ''''"
    by (simp add: addressKey_def truthy_def truthyPrim_def toLowerCase_def trim_def)
  obtain d1 where d1: "cleanRecord h r1 = Inr (Some d1)"
    by (simp add: cleanRecord_def Let_def assms key)
  obtain d2 where d2: "cleanRecord h r2 = Inr (Some d2)"
    by (simp add: cleanRecord_def Let_def assms key)
  have u1: "uniqueKey d1 = numberToString h (Fin (of_int t)) @ ''--''
          @ toText h (dimPrice (r1 ''Price''))"
    using d1 by (auto simp: cleanRecord_def Let_def assms key)
  have u2: "uniqueKey d2 = uniqueKey d1"
    using d2 u1 by (auto simp: cleanRecord_def Let_def assms key)
  have a1: "address d1 = JStr (trim (toText h (orElseCell (r1 ''Street Name'')
          (orElseCell (r1 ''Street Address'') (Prim (JStr ''''))))))"
    using d1
    by (auto simp: cleanRecord_def Let_def assms key orElseCell_def truthy_def truthyPrim_def)
  have a2: "address d2 = JStr (trim (toText h (orElseCell (r2 ''Street Name'')
          (orElseCell (r2 ''Street Address'') (Prim (JStr ''''))))))"
    using d2
    by (auto simp: cleanRecord_def Let_def assms key orElseCell_def truthy_def truthyPrim_def)
  have same: "price d1 = price d2" "year d1 = year d2"
    using cleanRecord_Some [OF d1] cleanRecord_Some [OF d2] assms by auto
  then have k: "kept d1 \<longleftrightarrow> kept d2" by (simp add: kept_def)
  have up: "uploadDataToFirestore h [r1, r2] st = Inr (st(safeKey (uniqueKey d2) \<mapsto> d2))"
    if "kept d1"
    using that k cleanRecords_pair [OF d1 d2] by (simp add: upload_writes batchSet_def u2)
  show ?thesis
    using d1 d2 u1 u2 a1 a2 k up by blast
qed

theorem missing_address_collapses_witness:
  "\<exists>d. uploadDataToFirestore utcHost
      [(sampleSheetRow (Prim JUndefined) (Prim (JStr ''$200,000'')) (Prim (JNum (Fin 1500))))
         (''Street Name'' := Prim (JStr ''1 Main St'')),
       (sampleSheetRow (Prim JUndefined) (Prim (JNum (Fin 200000))) (Prim (JNum (Fin 1500))))
         (''Street Name'' := Prim (JStr ''99 Elm Rd''))]
      Map.empty = Inr [''1651363200000--200000'' \<mapsto> d]
    \<and> address d = JStr ''99 Elm Rd''"
proof -
  let ?r1 = "(sampleSheetRow (Prim JUndefined) (Prim (JStr ''$200,000'')) (Prim (JNum (Fin 1500))))
         (''Street Name'' := Prim (JStr ''1 Main St''))"
  let ?r2 = "(sampleSheetRow (Prim JUndefined) (Prim (JNum (Fin 200000))) (Prim (JNum (Fin 1500))))
         (''Street Name'' := Prim (JStr ''99 Elm Rd''))"
  have h1: "?r1 ''Address'' = Prim JUndefined" and h2: "?r2 ''Address'' = Prim JUndefined"
    by (simp_all add: sampleSheetRow_def)
  have h3: "parseDate utcHost (?r1 ''Closed Date'') = Some 1651363200000"
    and h4: "parseDate utcHost (?r2 ''Closed Date'') = Some 1651363200000"
    by (simp_all add: sample_eval)
  have p1: "dimPrice (?r1 ''Price'') = Prim (JNum (Fin 200000))"
    and p2: "dimPrice (?r2 ''Price'') = Prim (JNum (Fin 200000))"
    by (simp_all add: sampleSheetRow_def dimPrice_sample) (simp add: dimPrice_def toNumber_def primToNumber_def)
  have h5: "dimPrice (?r1 ''Price'') = dimPrice (?r2 ''Price'')"
    by (simp only: p1 p2)
  obtain d1 d2 where d: "cleanRecord utcHost ?r1 = Inr (Some d1)"
      "cleanRecord utcHost ?r2 = Inr (Some d2)"
      "uniqueKey d1 = numberToString utcHost (Fin (of_int 1651363200000)) @ ''--''
          @ toText utcHost (dimPrice (?r1 ''Price''))"
      "uniqueKey d2 = uniqueKey d1"
      "address d2 = JStr (trim (toText utcHost (orElseCell (?r2 ''Street Name'')
          (orElseCell (?r2 ''Street Address'') (Prim (JStr ''''))))))"
      "kept d1 \<longrightarrow> uploadDataToFirestore utcHost [?r1, ?r2] Map.empty
          = Inr (Map.empty(safeKey (uniqueKey d2) \<mapsto> d2))"
    using missing_address_collapses [OF h1 h2 h3 h4 h5, of Map.empty] by blast
  have key: "uniqueKey d2 = ''1651363200000--200000''"
    unfolding d(4) d(3) p1
    by (simp add: timeText_2022 toText_def primText_def numberToString_def isInteger_def
        intText_def natText.simps digitChar_def)
  have addr: "address d2 = JStr ''99 Elm Rd''"
    unfolding d(5)
    by (simp add: sampleSheetRow_def orElseCell_def truthy_def truthyPrim_def toText_def
        primText_def trim_def isWhiteSpace_def)
  have "year d1 = localYear utcHost 1651363200000" "price d1 = JNum (Fin 200000)"
    using cleanRecord_Some [OF d(1)] h3 p1
    by (auto simp: jsonNumber_def toNumber_def primToNumber_def)
  then have "kept d1"
    by (simp add: kept_def primToNumber_def gt0_def utcHost_def utcYear_2022)
  with d(6) have "uploadDataToFirestore utcHost [?r1, ?r2] Map.empty
      = Inr [''1651363200000--200000'' \<mapsto> d2]"
    by (simp add: key safeKey_def)
  with addr show ?thesis by blast
qed

text \<open>
  C10. An upload that completes has written each cleaned record, in their order, under
  the identifier obtained from the record's own \<open>uniqueKey\<close> by replacing every \<open>/\<close> with
  \<open>_\<close>: every document it leaves that was not there before is stored under that
  identifier of its own, and every cleaned record's identifier holds a cleaned record.
  The stored fields are the canonical ones and \<open>uniqueKey\<close>; there is no field
  \<open>fingerprint\<close>.
\<close>

theorem stored_under_safe_key:
  assumes "uploadDataToFirestore h rawData st = Inr st'"
  shows "\<exists>ds. cleanRecords h rawData = Inr ds
     \<and> st' = foldl (\<lambda>s d. s(safeKey (uniqueKey d) \<mapsto> d)) st ds
     \<and> (\<forall>d\<in>set ds. \<exists>d'\<in>set ds. st' (safeKey (uniqueKey d)) = Some d')
     \<and> (\<forall>k d. st' k = Some d \<longrightarrow>
          st k = Some d \<or> (d \<in> set ds \<and> k = safeKey (uniqueKey d) \<and> CHR ''/'' \<notin> set k))
     \<and> (\<forall>d. map fst (documentFields d) =
          [''address'', ''date'', ''price'', ''pricePerSqFt'', ''sqFt'', ''daysOnMarket'',
           ''city'', ''subdivision'', ''beds'', ''baths'', ''year'', ''newConstruction'',
           ''insideCityLimits'', ''uniqueKey'']
          \<and> map_of (documentFields d) ''uniqueKey'' = Some (Prim (JStr (uniqueKey d)))
          \<and> map_of (documentFields d) ''fingerprint'' = None)"
proof -
  from assms obtain ds where ds: "cleanRecords h rawData = Inr ds"
    and st': "st' = foldl batchSet st ds"
    by (auto simp: upload_writes split: sum.splits)
  have unfolded: "st' = foldl (\<lambda>s d. s(safeKey (uniqueKey d) \<mapsto> d)) st ds"
    unfolding st' batchSet_def ..
  have written: "\<forall>d\<in>set ds. \<exists>d'\<in>set ds. st' (safeKey (uniqueKey d)) = Some d'"
    unfolding st' using foldl_batchSet_written by blast
  have own: "\<forall>k d. st' k = Some d \<longrightarrow>
      st k = Some d \<or> (d \<in> set ds \<and> k = safeKey (uniqueKey d) \<and> CHR ''/'' \<notin> set k)"
    unfolding st' using foldl_batchSet_lookup safeKey_no_slash by blast
  have fields: "\<forall>d. map fst (documentFields d) =
          [''address'', ''date'', ''price'', ''pricePerSqFt'', ''sqFt'', ''daysOnMarket'',
           ''city'', ''subdivision'', ''beds'', ''baths'', ''year'', ''newConstruction'',
           ''insideCityLimits'', ''uniqueKey'']
          \<and> map_of (documentFields d) ''uniqueKey'' = Some (Prim (JStr (uniqueKey d)))
          \<and> map_of (documentFields d) ''fingerprint'' = None"
    by (simp add: documentFields_def)
  show ?thesis
  proof (intro exI conjI)
    show "cleanRecords h rawData = Inr ds" by (fact ds)
    show "st' = foldl (\<lambda>s d. s(safeKey (uniqueKey d) \<mapsto> d)) st ds" by (fact unfolded)
    show "\<forall>d\<in>set ds. \<exists>d'\<in>set ds. st' (safeKey (uniqueKey d)) = Some d'" by (fact written)
    show "\<forall>k d. st' k = Some d \<longrightarrow>
      st k = Some d \<or> (d \<in> set ds \<and> k = safeKey (uniqueKey d) \<and> CHR ''/'' \<notin> set k)"
      by (fact own)
    show "\<forall>d. map fst (documentFields d) =
          [''address'', ''date'', ''price'', ''pricePerSqFt'', ''sqFt'', ''daysOnMarket'',
           ''city'', ''subdivision'', ''beds'', ''baths'', ''year'', ''newConstruction'',
           ''insideCityLimits'', ''uniqueKey'']
          \<and> map_of (documentFields d) ''uniqueKey'' = Some (Prim (JStr (uniqueKey d)))
          \<and> map_of (documentFields d) ''fingerprint'' = None"
      by (fact fields)
  qed
qed

theorem stored_under_safe_key_witness:
  "\<exists>d. uploadDataToFirestore utcHost
      [sampleSheetRow (Prim (JStr ''5 Oak St #1/2'')) (Prim (JStr ''$200,000''))
         (Prim (JNum (Fin 1500)))] Map.empty
      = Inr [''1651363200000-5 oak st #1_2-200000'' \<mapsto> d]
    \<and> uniqueKey d = ''1651363200000-5 oak st #1/2-200000''"
proof -
  let ?r = "sampleSheetRow (Prim (JStr ''5 Oak St #1/2'')) (Prim (JStr ''$200,000''))
         (Prim (JNum (Fin 1500)))"
  have "\<exists>d. cleanRecord utcHost ?r = Inr (Some d) \<and> kept d
      \<and> uniqueKey d = ''1651363200000-5 oak st #1/2-200000''"
    by (simp add: sample_eval)
  then obtain d where d: "cleanRecord utcHost ?r = Inr (Some d)" "kept d"
    "uniqueKey d = ''1651363200000-5 oak st #1/2-200000''"
    by blast
  then have recs: "cleanRecords utcHost [?r] = Inr [d]"
    by (simp add: cleanRecords_def List.map_filter_def)
  then have up: "uploadDataToFirestore utcHost [?r] Map.empty = Inr (batchSet Map.empty d)"
    by (simp add: upload_writes)
  obtain ds where ds: "cleanRecords utcHost [?r] = Inr ds"
    "batchSet Map.empty d = foldl (\<lambda>s d. s(safeKey (uniqueKey d) \<mapsto> d)) Map.empty ds"
    using stored_under_safe_key [OF up] by blast
  from ds(1) recs have "ds = [d]" by simp
  with ds(2) have "batchSet Map.empty d = [safeKey (uniqueKey d) \<mapsto> d]"
    by simp
  moreover have "safeKey (uniqueKey d) = ''1651363200000-5 oak st #1_2-200000''"
    by (simp add: d(3) safeKey_def)
  ultimately have "uploadDataToFirestore utcHost [?r] Map.empty
      = Inr [''1651363200000-5 oak st #1_2-200000'' \<mapsto> d]"
    using up by simp
  with d(3) show ?thesis by blast
qed

section \<open>Facts: histogram\<close>

lemma digit_cases: "d < 10 \<Longrightarrow> d \<in> {0, 1, 2, 3, 4, 5, 6, 7, 8, 9::nat}"
  by auto

lemma digitChar_props:
  assumes "d < 10"
  shows "isDigit (digitChar d)" "digitVal (digitChar d) = d"
    "digitChar d \<noteq> CHR ''k''" "digitChar d \<noteq> CHR ''-''" "digitChar d \<noteq> CHR ''+''"
    "digitChar d \<noteq> CHR ''x''" "digitChar d \<noteq> CHR ''X''" "\<not> isWhiteSpace (digitChar d)"
  using digit_cases [OF assms]
  by (auto simp: digitChar_def isDigit_def digitVal_def isWhiteSpace_def)


lemma natText_digits: "c \<in> set (natText n) \<Longrightarrow> isDigit c \<and> c \<noteq> CHR ''k'' \<and> c \<noteq> CHR ''x'' \<and> c \<noteq> CHR ''X''"
proof (induction n rule: natText.induct)
  case (1 n)
  show ?case
  proof (cases "n < 10")
    case True
    with "1.prems" show ?thesis
      by (subst (asm) natText.simps) (simp add: digitChar_props)
  next
    case False
    with "1.prems" have "c \<in> set (natText (n div 10)) \<or> c = digitChar (n mod 10)"
      by (subst (asm) natText.simps) auto
    then show ?thesis
      using "1.IH" [OF False] by (auto simp: digitChar_props)
  qed
qed



lemma not_digit_k: "\<not> isDigit CHR ''k''"
  by (simp add: isDigit_def)

lemma takeWhile_digits_natText: "takeWhile isDigit (natText n @ CHR ''k'' # rest) = natText n"
  using natText_digits [of _ n] by (simp add: not_digit_k)





























end
